theory Spec2Isabelle
  imports Main "HOL-Library.Sublist" "HOL-Library.AList" "HOL-Library.Multiset"
begin

section \<open>Errors\<close>

text \<open>
  Go's \<^verbatim>\<open>error\<close> values of \<^verbatim>\<open>internal/batches/executor/changeset_specs.go\<close>.
  \<^item> \<open>Lib e\<close>: an error handed back by a library the file calls (the diff parser, the diff
    printer, the template renderer); \<open>'e\<close> is whatever those libraries produce.
  \<^item> \<open>New msg\<close>: \<^verbatim>\<open>errors.New(msg)\<close>.
  \<^item> \<open>Errorf fmt args\<close>: \<^verbatim>\<open>fmt.Errorf(fmt, args...)\<close>, kept as the format string and its
    arguments in order.
  \<^item> \<open>Wrap err msg\<close>: \<^verbatim>\<open>errors.Wrap(err, msg)\<close>.
  \<^item> \<open>NewValidationError err\<close>: \<^verbatim>\<open>batcheslib.NewValidationError(err)\<close>.
  \<^item> \<open>Panic msg\<close>: \<^verbatim>\<open>panic(msg)\<close>. A panic is no error value; it is a constructor here so
    that the panicking path is a branch of the model.
  A function returning \<^verbatim>\<open>(T, error)\<close> returns \<open>'e error + T\<close>; one returning only
  \<^verbatim>\<open>error\<close> returns \<open>'e error option\<close>, \<open>None\<close> being \<^verbatim>\<open>nil\<close>.
\<close>

datatype 'e error =
    Lib 'e
  | New string
  | Errorf string "string list"
  | Wrap "'e error" string
  | NewValidationError "'e error"
  | Panic string

section \<open>Groups\<close>

text \<open>
  \<^verbatim>\<open>batcheslib.Group\<close>: the fields \<^verbatim>\<open>Directory\<close>, \<^verbatim>\<open>Branch\<close> and \<^verbatim>\<open>Repository\<close>.
\<close>

record Group =
  Directory :: string
  Branch :: string
  Repository :: string

text \<open>
  \<^verbatim>\<open>groupsForRepository\<close> (lines 142--160). The argument is the pointer
  \<^verbatim>\<open>*batcheslib.TransformChanges\<close>: \<open>None\<close> is \<^verbatim>\<open>nil\<close>, \<open>Some gs\<close> carries its
  \<^verbatim>\<open>Group\<close> slice. The loop appends to \<open>groups\<close>.
\<close>

fun groupsForRepositoryLoop :: "string \<Rightarrow> Group list \<Rightarrow> Group list \<Rightarrow> Group list" where
  "groupsForRepositoryLoop repoName groups [] = groups"
| "groupsForRepositoryLoop repoName groups (g # rest) =
     (if Repository g \<noteq> ''''
      then (if Repository g = repoName
            then groupsForRepositoryLoop repoName (groups @ [g]) rest
            else groupsForRepositoryLoop repoName groups rest)
      else groupsForRepositoryLoop repoName (groups @ [g]) rest)"

definition groupsForRepository :: "string \<Rightarrow> Group list option \<Rightarrow> Group list" where
  "groupsForRepository repoName transform =
     (case transform of
        None \<Rightarrow> []
      | Some gs \<Rightarrow> groupsForRepositoryLoop repoName [] gs)"

text \<open>
  \<^verbatim>\<open>validateGroups\<close> (lines 162--178). \<open>uniqueBranches\<close> is the set of keys of the Go map
  of the same name. The two failures are the two \<^verbatim>\<open>fmt.Errorf\<close> calls of the source.
\<close>

definition errSameBranch :: "string \<Rightarrow> string \<Rightarrow> 'e error" where
  "errSameBranch repoName branch =
     NewValidationError (Errorf
       ''transformChanges would lead to multiple changesets in repository %s to have the same branch %q''
       [repoName, branch])"

definition errDefaultBranch :: "string \<Rightarrow> string \<Rightarrow> 'e error" where
  "errDefaultBranch repoName defaultBranch =
     NewValidationError (Errorf
       ''transformChanges group branch for repository %s is the same as branch %q in changesetTemplate''
       [repoName, defaultBranch])"

fun validateGroupsLoop :: "string \<Rightarrow> string \<Rightarrow> string set \<Rightarrow> Group list \<Rightarrow> 'e error option" where
  "validateGroupsLoop repoName defaultBranch uniqueBranches [] = None"
| "validateGroupsLoop repoName defaultBranch uniqueBranches (g # rest) =
     (if Branch g \<in> uniqueBranches
      then Some (errSameBranch repoName (Branch g))
      else if Branch g = defaultBranch
      then Some (errDefaultBranch repoName defaultBranch)
      else validateGroupsLoop repoName defaultBranch (insert (Branch g) uniqueBranches) rest)"

definition validateGroups :: "string \<Rightarrow> string \<Rightarrow> Group list \<Rightarrow> 'e error option" where
  "validateGroups repoName defaultBranch groups =
     validateGroupsLoop repoName defaultBranch {} groups"

section \<open>Diffs and the libraries the file calls\<close>

text \<open>
  \<^verbatim>\<open>diff.FileDiff\<close> of go-diff. The times are kept as text and each hunk as its text:
  the code under study reads \<^verbatim>\<open>OrigName\<close> and \<^verbatim>\<open>NewName\<close> only.
\<close>

record FileDiff =
  OrigName :: string
  OrigTime :: "string option"
  NewName :: string
  NewTime :: "string option"
  Extended :: "string list"
  Hunks :: "string list"

text \<open>
  A Go \<^verbatim>\<open>map[string]T\<close> is an association list with distinct keys: \<open>map_of m k\<close> is
  the lookup with its \<^verbatim>\<open>ok\<close> flag, \<open>AList.update k v m\<close> is \<^verbatim>\<open>m[k] = v\<close>, and \<open>index m k\<close>
  is the expression \<^verbatim>\<open>m[k]\<close> for a map of slices, which is the nil slice for a missing key.
\<close>

definition index :: "(string \<times> 'a list) list \<Rightarrow> string \<Rightarrow> 'a list" where
  "index m k = (case map_of m k of None \<Rightarrow> [] | Some v \<Rightarrow> v)"

text \<open>
  Go's \<^verbatim>\<open>interface{}\<close> values that a publication value takes: \<^verbatim>\<open>nil\<close>, a boolean, or a
  string such as \<^verbatim>\<open>"draft"\<close>.
\<close>

datatype iface = IfaceNil | IfaceBool bool | IfaceString string

text \<open>
  The template context handed to the renderer (\<^verbatim>\<open>template.ChangesetTemplateContext\<close>),
  with the values it is built from. Where several Go structs use one field name, the
  fields carry the struct's name as a prefix.
\<close>

record BatchChangeAttributes =
  Attr_Name :: string
  Attr_Description :: string

record Changes =
  Modified :: "string list"
  Added :: "string list"
  Deleted :: "string list"
  Renamed :: "string list"

record StepsContext =
  Steps_Changes :: Changes
  Steps_Path :: string

record TemplatingRepo =
  TR_Name :: string
  TR_FileMatches :: "string list"

record ChangesetTemplateContext =
  Ctx_BatchChangeAttributes :: BatchChangeAttributes
  Ctx_Steps :: StepsContext
  Ctx_Outputs :: "(string \<times> string) list"
  Ctx_Repository :: TemplatingRepo

text \<open>
  What \<^verbatim>\<open>changeset_specs.go\<close> calls and does not define:
  \<^item> \<open>ParseMultiFileDiff\<close> and \<open>PrintMultiFileDiff\<close> of go-diff;
  \<^item> \<open>RenderChangesetTemplateField\<close> of the template library, given the field name, the
    template text and the context;
  \<^item> \<open>EnsureRefPrefix\<close> of \<^verbatim>\<open>internal/batches/util\<close>;
  \<^item> the order in which \<^verbatim>\<open>range\<close> visits the entries of a map, which Go leaves open:
    \<open>rangeByBranch\<close> for the loop over \<^verbatim>\<open>byBranch\<close> (line 232) and \<open>rangeDiffsByBranch\<close> for
    the loop over \<^verbatim>\<open>diffsByBranch\<close> (line 124).
  They are parameters of the model. \<open>rangeOrder r\<close> says that \<open>r\<close> visits every entry once.
\<close>

record 'e extern =
  ParseMultiFileDiff :: "string \<Rightarrow> 'e + FileDiff list"
  PrintMultiFileDiff :: "FileDiff list \<Rightarrow> 'e + string"
  RenderChangesetTemplateField :: "string \<Rightarrow> string \<Rightarrow> ChangesetTemplateContext \<Rightarrow> 'e + string"
  EnsureRefPrefix :: "string \<Rightarrow> string"
  rangeByBranch :: "(string \<times> FileDiff list) list \<Rightarrow> (string \<times> FileDiff list) list"
  rangeDiffsByBranch :: "(string \<times> string) list \<Rightarrow> (string \<times> string) list"

definition rangeOrder :: "('a list \<Rightarrow> 'a list) \<Rightarrow> bool" where
  "rangeOrder r \<longleftrightarrow> (\<forall>m. mset (r m) = mset m)"

text \<open>
  \<^verbatim>\<open>strings.Contains(s, substr)\<close>: \<open>substr\<close> occurs in \<open>s\<close> as a contiguous run of bytes;
  the empty string occurs in every string.
\<close>

fun Contains :: "string \<Rightarrow> string \<Rightarrow> bool" where
  "Contains [] substr = (substr = [])"
| "Contains (c # s) substr = (prefix substr (c # s) \<or> Contains s substr)"

section \<open>groupFileDiffs\<close>

text \<open>
  Lines 189--194. \<open>dirs\<close> starts as \<^verbatim>\<open>make([]string, len(branchesByDirectory))\<close>, with
  as many empty strings as the map has entries at that point.
\<close>

fun housekeeping ::
  "(string \<times> string) list \<Rightarrow> string list \<Rightarrow> Group list \<Rightarrow> (string \<times> string) list \<times> string list" where
  "housekeeping branchesByDirectory dirs [] = (branchesByDirectory, dirs)"
| "housekeeping branchesByDirectory dirs (g # rest) =
     housekeeping (AList.update (Directory g) (Branch g) branchesByDirectory)
       (dirs @ [Directory g]) rest"

text \<open>Lines 201--204: the path a file diff is matched by.\<close>

definition fileName :: "FileDiff \<Rightarrow> string" where
  "fileName f = (if NewName f = ''/dev/null'' then OrigName f else NewName f)"

text \<open>Lines 208--213: the last directory that \<open>name\<close> contains, or the start value.\<close>

fun matchingDirLoop :: "string \<Rightarrow> string \<Rightarrow> string list \<Rightarrow> string" where
  "matchingDirLoop name matchingDir [] = matchingDir"
| "matchingDirLoop name matchingDir (d # rest) =
     matchingDirLoop name (if Contains name d then d else matchingDir) rest"

text \<open>Lines 200--229: the loop over the file diffs, with the panic of line 225.\<close>

fun fileDiffsLoop ::
  "(string \<times> string) list \<Rightarrow> string list \<Rightarrow> string \<Rightarrow> FileDiff list \<Rightarrow>
   (string \<times> FileDiff list) list \<Rightarrow> 'e error + (string \<times> FileDiff list) list" where
  "fileDiffsLoop branchesByDirectory dirs defaultBranch [] byBranch = Inr byBranch"
| "fileDiffsLoop branchesByDirectory dirs defaultBranch (f # rest) byBranch =
     (let name = fileName f;
          matchingDir = matchingDirLoop name '''' dirs
      in if matchingDir = ''''
         then fileDiffsLoop branchesByDirectory dirs defaultBranch rest
                (AList.update defaultBranch (index byBranch defaultBranch @ [f]) byBranch)
         else (case map_of branchesByDirectory matchingDir of
                 None \<Rightarrow> Inl (Panic (''this should not happen: '' @ matchingDir))
               | Some branch \<Rightarrow>
                   fileDiffsLoop branchesByDirectory dirs defaultBranch rest
                     (AList.update branch (index byBranch branch @ [f]) byBranch)))"

text \<open>Lines 186--229: the map \<^verbatim>\<open>byBranch\<close> built from the parsed file diffs.\<close>

definition assignFileDiffs ::
  "string \<Rightarrow> Group list \<Rightarrow> FileDiff list \<Rightarrow> 'e error + (string \<times> FileDiff list) list" where
  "assignFileDiffs defaultBranch groups fileDiffs =
     (let branchesByDirectory0 = [] :: (string \<times> string) list;
          (branchesByDirectory, dirs) =
             housekeeping branchesByDirectory0 (replicate (length branchesByDirectory0) '''') groups;
          byBranch = AList.update defaultBranch [] []
      in fileDiffsLoop branchesByDirectory dirs defaultBranch fileDiffs byBranch)"

text \<open>Lines 231--238: the loop over the entries of \<^verbatim>\<open>byBranch\<close>, in the order it is given.\<close>

fun printLoop ::
  "(FileDiff list \<Rightarrow> 'e + string) \<Rightarrow> (string \<times> FileDiff list) list \<Rightarrow>
   (string \<times> string) list \<Rightarrow> 'e error + (string \<times> string) list" where
  "printLoop pr [] finalDiffsByBranch = Inr finalDiffsByBranch"
| "printLoop pr ((branch, diffs) # rest) finalDiffsByBranch =
     (case pr diffs of
        Inl err \<Rightarrow> Inl (Wrap (Lib err) ''printing multi file diff failed'')
      | Inr printed \<Rightarrow> printLoop pr rest (AList.update branch printed finalDiffsByBranch))"

text \<open>\<^verbatim>\<open>groupFileDiffs\<close> (lines 180--240).\<close>

definition groupFileDiffs ::
  "'e extern \<Rightarrow> string \<Rightarrow> string \<Rightarrow> Group list \<Rightarrow> 'e error + (string \<times> string) list" where
  "groupFileDiffs X completeDiff defaultBranch groups =
     (case ParseMultiFileDiff X completeDiff of
        Inl err \<Rightarrow> Inl (Lib err)
      | Inr fileDiffs \<Rightarrow>
          (case assignFileDiffs defaultBranch groups fileDiffs of
             Inl err \<Rightarrow> Inl err
           | Inr byBranch \<Rightarrow> printLoop (PrintMultiFileDiff X) (rangeByBranch X byBranch) []))"

section \<open>createChangesetSpecs\<close>

text \<open>
  The task, the execution result and the feature flags, as far as \<^verbatim>\<open>createChangesetSpecs\<close>
  reads them.
  \<^item> \<open>Repo_BaseRef\<close> and \<open>Repo_Rev\<close> hold what the methods \<^verbatim>\<open>BaseRef()\<close> and \<^verbatim>\<open>Rev()\<close>
    of the repository return.
  \<^item> \<open>Commit_Author\<close>, \<open>Template_Published\<close> and \<open>Task_TransformChanges\<close> are pointers in the
    source: \<open>None\<close> is \<^verbatim>\<open>nil\<close>.
  \<^item> \<open>Template_Published\<close>, when set, is given by its method \<^verbatim>\<open>ValueWithSuffix\<close>, from the
    repository name and the branch to the publication value.
\<close>

record GitCommitAuthor =
  Author_Name :: string
  Author_Email :: string

record CommitTemplate =
  Commit_Message :: string
  Commit_Author :: "GitCommitAuthor option"

record ChangesetTemplate =
  Template_Title :: string
  Template_Body :: string
  Template_Branch :: string
  Template_Commit :: CommitTemplate
  Template_Published :: "(string \<Rightarrow> string \<Rightarrow> iface) option"

record Repo =
  Repo_ID :: string
  Repo_Name :: string
  Repo_FileMatches :: "string list"
  Repo_BaseRef :: string
  Repo_Rev :: string

record Task =
  Task_BatchChangeAttributes :: BatchChangeAttributes
  Task_Repository :: Repo
  Task_Template :: ChangesetTemplate
  Task_TransformChanges :: "Group list option"

record executionResult =
  Result_Diff :: string
  Result_ChangedFiles :: Changes
  Result_Outputs :: "(string \<times> string) list"
  Result_Path :: string

record FeatureFlags =
  AllowOptionalPublished :: bool
  IncludeAutoAuthorDetails :: bool

record GitCommitDescription =
  Message :: string
  AuthorName :: string
  AuthorEmail :: string
  Diff :: string

record ChangesetSpec =
  BaseRepository :: string
  BaseRef :: string
  BaseRev :: string
  HeadRepository :: string
  HeadRef :: string
  Title :: string
  Body :: string
  Commits :: "GitCommitDescription list"
  Published :: iface

text \<open>
  Modelled from the spec: \<^verbatim>\<open>util.NewTemplatingRepo\<close> is not among the sources; the spec
  calls its result a templating view of the repository, the name plus the file-match
  results.
\<close>

definition NewTemplatingRepo :: "string \<Rightarrow> string list \<Rightarrow> TemplatingRepo" where
  "NewTemplatingRepo name fileMatches = \<lparr>TR_Name = name, TR_FileMatches = fileMatches\<rparr>"

text \<open>Line 16.\<close>

definition errOptionalPublishedUnsupported :: "'e error" where
  \<open>errOptionalPublishedUnsupported =
     NewValidationError (New
       ''This Sourcegraph version requires the "published" field to be specified in the batch spec; upgrade to version 3.30.0 or later to be able to omit the published field and control publication from the UI.'')\<close>

text \<open>Lines 19--27: the context every field is rendered with.\<close>

definition tmplCtx :: "Task \<Rightarrow> executionResult \<Rightarrow> ChangesetTemplateContext" where
  "tmplCtx task result =
     \<lparr>Ctx_BatchChangeAttributes = Task_BatchChangeAttributes task,
      Ctx_Steps = \<lparr>Steps_Changes = Result_ChangedFiles result, Steps_Path = Result_Path result\<rparr>,
      Ctx_Outputs = Result_Outputs result,
      Ctx_Repository = NewTemplatingRepo (Repo_Name (Task_Repository task))
                         (Repo_FileMatches (Task_Repository task))\<rparr>"

text \<open>
  Lines 73--107: the closure \<^verbatim>\<open>newSpec\<close>, with the variables it captures as arguments.
\<close>

definition newSpec ::
  "'e extern \<Rightarrow> Task \<Rightarrow> FeatureFlags \<Rightarrow> string \<Rightarrow> string \<Rightarrow> string \<Rightarrow> string \<Rightarrow> string \<Rightarrow>
   string \<Rightarrow> string \<Rightarrow> 'e error + ChangesetSpec" where
  "newSpec X task features authorName authorEmail title body message branch diff =
     (let spec = (\<lambda>published.
            \<lparr>BaseRepository = Repo_ID (Task_Repository task),
             BaseRef = Repo_BaseRef (Task_Repository task),
             BaseRev = Repo_Rev (Task_Repository task),
             HeadRepository = Repo_ID (Task_Repository task),
             HeadRef = EnsureRefPrefix X branch,
             Title = title,
             Body = body,
             Commits = [\<lparr>Message = message, AuthorName = authorName,
                         AuthorEmail = authorEmail, Diff = diff\<rparr>],
             Published = published\<rparr>)
      in case Template_Published (Task_Template task) of
           Some valueWithSuffix \<Rightarrow>
             (let published = valueWithSuffix (Repo_Name (Task_Repository task)) branch
              in if published = IfaceNil \<and> \<not> AllowOptionalPublished features
                 then Inr (spec (IfaceBool False))
                 else Inr (spec published))
         | None \<Rightarrow>
             if \<not> AllowOptionalPublished features
             then Inl errOptionalPublishedUnsupported
             else Inr (spec IfaceNil))"

text \<open>Lines 29--48: the author's name and email.\<close>

definition authorDetails ::
  "'e extern \<Rightarrow> Task \<Rightarrow> FeatureFlags \<Rightarrow> ChangesetTemplateContext \<Rightarrow> 'e error + string \<times> string" where
  "authorDetails X task features ctx =
     (case Commit_Author (Template_Commit (Task_Template task)) of
        None \<Rightarrow>
          if IncludeAutoAuthorDetails features
          then Inr (''Sourcegraph'', ''batch-changes@sourcegraph.com'')
          else Inr ('''', '''')
      | Some author \<Rightarrow>
          (case RenderChangesetTemplateField X ''authorName'' (Author_Name author) ctx of
             Inl err \<Rightarrow> Inl (Lib err)
           | Inr authorName \<Rightarrow>
               (case RenderChangesetTemplateField X ''authorEmail'' (Author_Email author) ctx of
                  Inl err \<Rightarrow> Inl (Lib err)
                | Inr authorEmail \<Rightarrow> Inr (authorName, authorEmail))))"

text \<open>Lines 124--130: one spec for each entry of \<^verbatim>\<open>diffsByBranch\<close>, in the order given.\<close>

fun specsLoop ::
  "(string \<Rightarrow> string \<Rightarrow> 'e error + ChangesetSpec) \<Rightarrow> (string \<times> string) list \<Rightarrow>
   ChangesetSpec list \<Rightarrow> 'e error + ChangesetSpec list" where
  "specsLoop mk [] specs = Inr specs"
| "specsLoop mk ((branch, diff) # rest) specs =
     (case mk branch diff of
        Inl err \<Rightarrow> Inl err
      | Inr spec \<Rightarrow> specsLoop mk rest (specs @ [spec]))"

text \<open>
  Line 121: \<^verbatim>\<open>errors.Wrap(err, "grouping diffs failed")\<close> for an error that
  \<^verbatim>\<open>groupFileDiffs\<close> returned; a panic inside \<^verbatim>\<open>groupFileDiffs\<close> never reaches that line and
  unwinds through the caller as it is.
\<close>

fun wrapGrouping :: "'e error \<Rightarrow> 'e error" where
  "wrapGrouping (Panic msg) = Panic msg"
| "wrapGrouping err = Wrap err ''grouping diffs failed''"

text \<open>Lines 109--139: groups, validation, grouping and the specs.\<close>

definition assemble ::
  "'e extern \<Rightarrow> Task \<Rightarrow> executionResult \<Rightarrow> string \<Rightarrow>
   (string \<Rightarrow> string \<Rightarrow> 'e error + ChangesetSpec) \<Rightarrow> 'e error + ChangesetSpec list" where
  "assemble X task result defaultBranch mk =
     (let specs = [] :: ChangesetSpec list;
          groups = groupsForRepository (Repo_Name (Task_Repository task))
                     (Task_TransformChanges task)
      in if length groups \<noteq> 0
         then (case validateGroups (Repo_Name (Task_Repository task))
                      (Template_Branch (Task_Template task)) groups of
                 Some err \<Rightarrow> Inl err
               | None \<Rightarrow>
                   (case groupFileDiffs X (Result_Diff result) defaultBranch groups of
                      Inl err \<Rightarrow> Inl (wrapGrouping err)
                    | Inr diffsByBranch \<Rightarrow>
                        specsLoop mk (rangeDiffsByBranch X diffsByBranch) specs))
         else (case mk defaultBranch (Result_Diff result) of
                 Inl err \<Rightarrow> Inl err
               | Inr spec \<Rightarrow> Inr (specs @ [spec])))"

text \<open>\<^verbatim>\<open>createChangesetSpecs\<close> (lines 18--140).\<close>

definition createChangesetSpecs ::
  "'e extern \<Rightarrow> Task \<Rightarrow> executionResult \<Rightarrow> FeatureFlags \<Rightarrow> 'e error + ChangesetSpec list" where
  "createChangesetSpecs X task result features =
     (let ctx = tmplCtx task result
      in case authorDetails X task features ctx of
           Inl err \<Rightarrow> Inl err
         | Inr (authorName, authorEmail) \<Rightarrow>
      (case RenderChangesetTemplateField X ''title'' (Template_Title (Task_Template task)) ctx of
           Inl err \<Rightarrow> Inl (Lib err)
         | Inr title \<Rightarrow>
      (case RenderChangesetTemplateField X ''body'' (Template_Body (Task_Template task)) ctx of
           Inl err \<Rightarrow> Inl (Lib err)
         | Inr body \<Rightarrow>
      (case RenderChangesetTemplateField X ''message''
              (Commit_Message (Template_Commit (Task_Template task))) ctx of
           Inl err \<Rightarrow> Inl (Lib err)
         | Inr message \<Rightarrow>
      (case RenderChangesetTemplateField X ''branch'' (Template_Branch (Task_Template task)) ctx of
           Inl err \<Rightarrow> Inl (Lib err)
         | Inr defaultBranch \<Rightarrow>
             assemble X task result defaultBranch
               (newSpec X task features authorName authorEmail title body message))))))"

section \<open>Notions the properties are stated with\<close>

text \<open>
  One pass of the loop body of lines 201--226 for a file diff, given the lookup and the
  directories: the branch the file diff is appended to, \<open>None\<close> on the panicking path.
\<close>

definition selectBranch ::
  "(string \<times> string) list \<Rightarrow> string list \<Rightarrow> string \<Rightarrow> FileDiff \<Rightarrow> string option" where
  "selectBranch branchesByDirectory dirs defaultBranch f =
     (let matchingDir = matchingDirLoop (fileName f) '''' dirs
      in if matchingDir = '''' then Some defaultBranch
         else map_of branchesByDirectory matchingDir)"

text \<open>The same with the lookup and the directories that lines 189--194 build from the groups.\<close>

definition branchOfFile :: "string \<Rightarrow> Group list \<Rightarrow> FileDiff \<Rightarrow> string option" where
  "branchOfFile defaultBranch groups f =
     selectBranch (fst (housekeeping [] [] groups)) (snd (housekeeping [] [] groups))
       defaultBranch f"

text \<open>
  The spec's rule, in its words: of the groups whose directory the path contains, the one
  declared last; \<open>None\<close> when no group matches.
\<close>

definition lastMatchingGroup :: "string \<Rightarrow> Group list \<Rightarrow> Group option" where
  "lastMatchingGroup name groups =
     (case filter (\<lambda>g. Contains name (Directory g)) groups of
        [] \<Rightarrow> None
      | g # gs \<Rightarrow> Some (last (g # gs)))"

text \<open>
  Lines 29--71 of \<^verbatim>\<open>createChangesetSpecs\<close> taken together: the author's name and email,
  the title, the body, the commit message and the default branch, or the first failure.
\<close>

definition renderFields ::
  "'e extern \<Rightarrow> Task \<Rightarrow> executionResult \<Rightarrow> FeatureFlags \<Rightarrow>
   'e error + string \<times> string \<times> string \<times> string \<times> string \<times> string" where
  "renderFields X task result features =
     (let ctx = tmplCtx task result
      in case authorDetails X task features ctx of
           Inl err \<Rightarrow> Inl err
         | Inr (authorName, authorEmail) \<Rightarrow>
      (case RenderChangesetTemplateField X ''title'' (Template_Title (Task_Template task)) ctx of
           Inl err \<Rightarrow> Inl (Lib err)
         | Inr title \<Rightarrow>
      (case RenderChangesetTemplateField X ''body'' (Template_Body (Task_Template task)) ctx of
           Inl err \<Rightarrow> Inl (Lib err)
         | Inr body \<Rightarrow>
      (case RenderChangesetTemplateField X ''message''
              (Commit_Message (Template_Commit (Task_Template task))) ctx of
           Inl err \<Rightarrow> Inl (Lib err)
         | Inr message \<Rightarrow>
      (case RenderChangesetTemplateField X ''branch'' (Template_Branch (Task_Template task)) ctx of
           Inl err \<Rightarrow> Inl (Lib err)
         | Inr defaultBranch \<Rightarrow>
             Inr (authorName, authorEmail, title, body, message, defaultBranch))))))"

text \<open>
  The publication value the spec describes for a branch: the policy's value, with an
  absent value replaced by \<^verbatim>\<open>false\<close> when optional publication is not allowed; absent
  when there is no policy.
\<close>

definition publicationValue :: "Task \<Rightarrow> FeatureFlags \<Rightarrow> string \<Rightarrow> iface" where
  "publicationValue task features branch =
     (case Template_Published (Task_Template task) of
        None \<Rightarrow> IfaceNil
      | Some valueWithSuffix \<Rightarrow>
          (if valueWithSuffix (Repo_Name (Task_Repository task)) branch = IfaceNil
           then (if AllowOptionalPublished features then IfaceNil else IfaceBool False)
           else valueWithSuffix (Repo_Name (Task_Repository task)) branch))"

section \<open>A worked example\<close>

text \<open>
  The spec's end-to-end example: one group sending \<^verbatim>\<open>backend/\<close> to the branch
  \<^verbatim>\<open>grouped-backend\<close>, and a diff that touches \<^verbatim>\<open>backend/a.go\<close> and \<^verbatim>\<open>frontend/b.ts\<close>; a
  deleted file \<^verbatim>\<open>backend/old.go\<close> is added to it. The libraries of the example are
  simple stand-ins with errors that are texts: the parser rejects one input, the printer
  lists the paths of the file diffs, the renderer returns the template as it is and
  rejects one template.
\<close>

definition exampleGroups :: "Group list" where
  "exampleGroups = [\<lparr>Directory = ''backend/'', Branch = ''grouped-backend'', Repository = ''''\<rparr>]"

definition exampleA :: FileDiff where
  "exampleA = \<lparr>OrigName = ''backend/a.go'', OrigTime = None, NewName = ''backend/a.go'',
               NewTime = None, Extended = [], Hunks = [''@@ -1 +1 @@'']\<rparr>"

definition exampleB :: FileDiff where
  "exampleB = \<lparr>OrigName = ''frontend/b.ts'', OrigTime = None, NewName = ''frontend/b.ts'',
               NewTime = None, Extended = [], Hunks = [''@@ -2 +2 @@'']\<rparr>"

definition exampleOld :: FileDiff where
  "exampleOld = \<lparr>OrigName = ''backend/old.go'', OrigTime = None, NewName = ''/dev/null'',
                 NewTime = None, Extended = [], Hunks = [''@@ -1,3 +0,0 @@'']\<rparr>"

definition exampleFileDiffs :: "FileDiff list" where
  "exampleFileDiffs = [exampleA, exampleB, exampleOld]"

definition exampleExtern :: "string extern" where
  "exampleExtern =
     \<lparr>ParseMultiFileDiff = (\<lambda>s. if s = ''not a diff'' then Inl ''bad diff'' else Inr exampleFileDiffs),
      PrintMultiFileDiff = (\<lambda>ds. Inr (concat (map (\<lambda>f. OrigName f @ '' '' @ NewName f @ ''; '') ds))),
      RenderChangesetTemplateField =
        (\<lambda>field tmpl ctx. if tmpl = ''{{'' then Inl ''bad template'' else Inr tmpl),
      EnsureRefPrefix = (\<lambda>ref. if prefix ''refs/heads/'' ref then ref else ''refs/heads/'' @ ref),
      rangeByBranch = (\<lambda>m. m),
      rangeDiffsByBranch = rev\<rparr>"

text \<open>
  A second group list for the example: the group of above, followed by a group whose
  directory is the empty string.
\<close>

definition exampleEmptyLast :: "Group list" where
  "exampleEmptyLast =
     [\<lparr>Directory = ''backend/'', Branch = ''grouped-backend'', Repository = ''''\<rparr>,
      \<lparr>Directory = '''', Branch = ''everything'', Repository = ''''\<rparr>]"

text \<open>
  A task and an execution result for the example. The task declares no author and no
  publication policy; the policy \<open>examplePublished\<close> publishes the branch \<^verbatim>\<open>main\<close> and leaves
  every other branch open.
\<close>

definition exampleTask :: Task where
  "exampleTask =
     \<lparr>Task_BatchChangeAttributes = \<lparr>Attr_Name = ''example'', Attr_Description = ''An example''\<rparr>,
      Task_Repository =
        \<lparr>Repo_ID = ''UmVwbzox'', Repo_Name = ''github.com/example/repo'', Repo_FileMatches = [],
         Repo_BaseRef = ''refs/heads/trunk'', Repo_Rev = ''0123abc''\<rparr>,
      Task_Template =
        \<lparr>Template_Title = ''The title'', Template_Body = ''The body'', Template_Branch = ''main'',
         Template_Commit = \<lparr>Commit_Message = ''The message'', Commit_Author = None\<rparr>,
         Template_Published = None\<rparr>,
      Task_TransformChanges = None\<rparr>"

definition exampleResult :: executionResult where
  "exampleResult =
     \<lparr>Result_Diff = ''a diff'',
      Result_ChangedFiles =
        \<lparr>Modified = [''backend/a.go'', ''frontend/b.ts''], Added = [],
         Deleted = [''backend/old.go''], Renamed = []\<rparr>,
      Result_Outputs = [],
      Result_Path = ''''\<rparr>"

definition examplePublished :: "string \<Rightarrow> string \<Rightarrow> iface" where
  "examplePublished repo branch = (if branch = ''main'' then IfaceBool True else IfaceNil)"

definition exampleFlags :: "bool \<Rightarrow> bool \<Rightarrow> FeatureFlags" where
  "exampleFlags allow auto = \<lparr>AllowOptionalPublished = allow, IncludeAutoAuthorDetails = auto\<rparr>"

definition withPublished :: "(string \<Rightarrow> string \<Rightarrow> iface) option \<Rightarrow> Task \<Rightarrow> Task" where
  "withPublished p task = task\<lparr>Task_Template := (Task_Template task)\<lparr>Template_Published := p\<rparr>\<rparr>"

definition withAuthor :: "GitCommitAuthor option \<Rightarrow> Task \<Rightarrow> Task" where
  "withAuthor a task =
     task\<lparr>Task_Template := (Task_Template task)
       \<lparr>Template_Commit := (Template_Commit (Task_Template task))\<lparr>Commit_Author := a\<rparr>\<rparr>\<rparr>"

definition withGroups :: "Group list option \<Rightarrow> Task \<Rightarrow> Task" where
  "withGroups gs task = task\<lparr>Task_TransformChanges := gs\<rparr>"

section \<open>Group selection and validation: proofs\<close>

lemma groupsForRepositoryLoop_filter:
  "groupsForRepositoryLoop repoName acc gs =
     acc @ filter (\<lambda>g. Repository g = '''' \<or> Repository g = repoName) gs"
  by (induction gs arbitrary: acc) auto

lemma groupsForRepository_filter:
  "groupsForRepository repoName (Some gs) =
     filter (\<lambda>g. Repository g = '''' \<or> Repository g = repoName) gs"
  by (simp add: groupsForRepository_def groupsForRepositoryLoop_filter)

lemma validateGroupsLoop_None:
  "(validateGroupsLoop repoName defaultBranch seen gs = (None :: 'e error option)) \<longleftrightarrow>
     distinct (map Branch gs) \<and> defaultBranch \<notin> set (map Branch gs) \<and>
     set (map Branch gs) \<inter> seen = {}"
  by (induction gs arbitrary: seen) auto

lemma validateGroupsLoop_first:
  assumes "(validateGroupsLoop repoName defaultBranch seen pre :: 'e error option) = None"
  shows "(validateGroupsLoop repoName defaultBranch seen (pre @ g # post) :: 'e error option) =
           (if Branch g \<in> seen \<union> set (map Branch pre)
            then Some (errSameBranch repoName (Branch g))
            else if Branch g = defaultBranch
            then Some (errDefaultBranch repoName defaultBranch)
            else validateGroupsLoop repoName defaultBranch
                   (insert (Branch g) (seen \<union> set (map Branch pre))) post)"
  using assms
proof (induction pre arbitrary: seen)
  case Nil
  then show ?case by simp
next
  case (Cons p pre)
  from Cons.prems have p: "Branch p \<notin> seen" "Branch p \<noteq> defaultBranch"
    and rest: "(validateGroupsLoop repoName defaultBranch (insert (Branch p) seen) pre
                 :: 'e error option) = None"
    by (auto split: if_splits)
  have "insert (Branch p) seen \<union> set (map Branch pre) = seen \<union> set (map Branch (p # pre))"
    by auto
  with Cons.IH [OF rest] p show ?case by simp
qed

text \<open>
  C4. \<open>validateGroups\<close> succeeds exactly when the branches of the groups are pairwise
  distinct and none of them is the default branch; in particular it succeeds on the empty
  list. When it fails, the failure is that of the first group, in declaration order, that
  repeats the branch of an earlier group or carries the default branch: whatever follows
  a valid prefix \<open>pre\<close> and the offending group \<open>g\<close> plays no role, and the error says which
  of the two violations \<open>g\<close> commits.
\<close>

theorem validateGroups_iff_first_violation:
  "((validateGroups repoName defaultBranch gs :: 'e error option) \<noteq> None \<longleftrightarrow>
      \<not> distinct (map Branch gs) \<or> defaultBranch \<in> set (map Branch gs))
   \<and> (validateGroups repoName defaultBranch [] :: 'e error option) = None
   \<and> ((validateGroups repoName defaultBranch pre :: 'e error option) = None \<longrightarrow>
        Branch g \<in> set (map Branch pre) \<or> Branch g = defaultBranch \<longrightarrow>
        (validateGroups repoName defaultBranch (pre @ g # post) :: 'e error option) =
          Some (if Branch g \<in> set (map Branch pre)
                then errSameBranch repoName (Branch g)
                else errDefaultBranch repoName defaultBranch))"
proof (intro conjI impI)
  show "((validateGroups repoName defaultBranch gs :: 'e error option) \<noteq> None) =
          (\<not> distinct (map Branch gs) \<or> defaultBranch \<in> set (map Branch gs))"
    unfolding validateGroups_def validateGroupsLoop_None by auto
next
  show "(validateGroups repoName defaultBranch [] :: 'e error option) = None"
    by (simp add: validateGroups_def)
next
  assume ok: "(validateGroups repoName defaultBranch pre :: 'e error option) = None"
    and bad: "Branch g \<in> set (map Branch pre) \<or> Branch g = defaultBranch"
  from ok have "(validateGroupsLoop repoName defaultBranch {} pre :: 'e error option) = None"
    by (simp add: validateGroups_def)
  from validateGroupsLoop_first [OF this, of g post] bad
  show "(validateGroups repoName defaultBranch (pre @ g # post) :: 'e error option) =
          Some (if Branch g \<in> set (map Branch pre)
                then errSameBranch repoName (Branch g)
                else errDefaultBranch repoName defaultBranch)"
    by (auto simp: validateGroups_def)
qed

theorem validateGroups_iff_first_violation_witness:
  "(validateGroups ''repo'' ''main''
      [\<lparr>Directory = ''a'', Branch = ''x'', Repository = ''''\<rparr>] :: unit error option) = None
   \<and> (validateGroups ''repo'' ''main''
        [\<lparr>Directory = ''a'', Branch = ''x'', Repository = ''''\<rparr>,
         \<lparr>Directory = ''b'', Branch = ''x'', Repository = ''''\<rparr>,
         \<lparr>Directory = ''c'', Branch = ''main'', Repository = ''''\<rparr>] :: unit error option) =
       Some (errSameBranch ''repo'' ''x'')"
  using validateGroups_iff_first_violation
    [of "''repo''" "''main''" "[]"
        "[\<lparr>Directory = ''a'', Branch = ''x'', Repository = ''''\<rparr>]"
        "\<lparr>Directory = ''b'', Branch = ''x'', Repository = ''''\<rparr>"
        "[\<lparr>Directory = ''c'', Branch = ''main'', Repository = ''''\<rparr>]", where ?'e = unit]
  by (simp add: validateGroups_def)

section \<open>groupFileDiffs: the loops\<close>

lemma Contains_sublist: "Contains s d \<longleftrightarrow> sublist d s"
  by (induction s) (auto simp: sublist_Cons_right)

lemma Contains_Nil [simp]: "Contains s []"
  by (simp add: Contains_sublist)

lemma matchingDirLoop_append:
  "matchingDirLoop name init (ds @ [d]) =
     (if Contains name d then d else matchingDirLoop name init ds)"
  by (induction ds arbitrary: init) auto

lemma matchingDirLoop_mem:
  "matchingDirLoop name init ds = init \<or> matchingDirLoop name init ds \<in> set ds"
  by (induction ds rule: rev_induct) (auto simp: matchingDirLoop_append)

lemma housekeeping_append:
  "housekeeping bbd dirs (gs @ [g]) =
     (AList.update (Directory g) (Branch g) (fst (housekeeping bbd dirs gs)),
      snd (housekeeping bbd dirs gs) @ [Directory g])"
  by (induction gs arbitrary: bbd dirs) auto

lemma housekeeping_dirs: "snd (housekeeping bbd dirs gs) = dirs @ map Directory gs"
  by (induction gs arbitrary: bbd dirs) auto

lemma housekeeping_keys:
  "fst ` set (fst (housekeeping bbd dirs gs)) = fst ` set bbd \<union> Directory ` set gs"
  by (induction gs arbitrary: bbd dirs) (auto simp: dom_update)


lemma index_update [simp]:
  "index (AList.update k v m) b = (if b = k then v else index m b)"
  by (simp add: index_def update_conv')

lemma index_Nil [simp]: "index [] b = []"
  by (simp add: index_def)

lemma fileDiffsLoop_char:
  assumes "\<forall>f\<in>set fs. selectBranch bbd dirs db f \<noteq> None"
  shows "\<exists>m. (fileDiffsLoop bbd dirs db fs byBranch :: 'e error + _) = Inr m
           \<and> (distinct (map fst byBranch) \<longrightarrow> distinct (map fst m))
           \<and> fst ` set m = fst ` set byBranch \<union> {b. \<exists>f\<in>set fs. selectBranch bbd dirs db f = Some b}
           \<and> (\<forall>b. index m b = index byBranch b @ filter (\<lambda>f. selectBranch bbd dirs db f = Some b) fs)"
  using assms
proof (induction fs arbitrary: byBranch)
  case Nil
  then show ?case by simp
next
  case (Cons f fs)
  from Cons.prems obtain b where b: "selectBranch bbd dirs db f = Some b" by auto
  let ?next = "AList.update b (index byBranch b @ [f]) byBranch"
  have step: "(fileDiffsLoop bbd dirs db (f # fs) byBranch :: 'e error + _) =
                fileDiffsLoop bbd dirs db fs ?next"
    using b by (auto simp: selectBranch_def Let_def split: if_splits)
  from Cons.prems have "\<forall>f\<in>set fs. selectBranch bbd dirs db f \<noteq> None" by simp
  from Cons.IH [OF this, of ?next] obtain m where
    m: "(fileDiffsLoop bbd dirs db fs ?next :: 'e error + _) = Inr m"
    and d: "distinct (map fst ?next) \<longrightarrow> distinct (map fst m)"
    and k: "fst ` set m = fst ` set ?next \<union> {b. \<exists>f\<in>set fs. selectBranch bbd dirs db f = Some b}"
    and i: "\<forall>c. index m c = index ?next c @ filter (\<lambda>f. selectBranch bbd dirs db f = Some c) fs"
    by blast
  have "distinct (map fst byBranch) \<longrightarrow> distinct (map fst m)"
    using d by (simp add: distinct_update)
  moreover have "fst ` set m = fst ` set byBranch \<union> {c. \<exists>f\<in>set (f # fs). selectBranch bbd dirs db f = Some c}"
    using k b by (auto simp: dom_update)
  moreover have "\<forall>c. index m c = index byBranch c @ filter (\<lambda>f. selectBranch bbd dirs db f = Some c) (f # fs)"
    using i b by auto
  ultimately show ?case using step m by simp
qed

lemma selectBranch_housekeeping:
  "selectBranch (fst (housekeeping [] [] groups)) (snd (housekeeping [] [] groups)) db f \<noteq> None"
proof -
  let ?md = "matchingDirLoop (fileName f) [] (snd (housekeeping [] [] groups))"
  have "?md = [] \<or> ?md \<in> set (snd (housekeeping [] [] groups))"
    by (rule matchingDirLoop_mem)
  then have "?md = [] \<or> ?md \<in> fst ` set (fst (housekeeping [] [] groups))"
    by (auto simp: housekeeping_dirs housekeeping_keys)
  then show ?thesis
    by (cases "?md = []") (simp_all add: selectBranch_def Let_def map_of_eq_None_iff)
qed

lemma branchOfFile_Some: "\<exists>b. branchOfFile db groups f = Some b"
  using selectBranch_housekeeping [of groups db f] by (auto simp: branchOfFile_def)

lemma assignFileDiffs_unfold:
  "(assignFileDiffs db groups fds :: 'e error + _) =
     fileDiffsLoop (fst (housekeeping [] [] groups)) (snd (housekeeping [] [] groups)) db fds [(db, [])]"
  by (simp add: assignFileDiffs_def Let_def split: prod.splits)

lemma assignFileDiffs_char:
  "\<exists>m. (assignFileDiffs db groups fds :: 'e error + _) = Inr m
       \<and> distinct (map fst m)
       \<and> fst ` set m = insert db {b. \<exists>f\<in>set fds. branchOfFile db groups f = Some b}
       \<and> (\<forall>b. index m b = filter (\<lambda>f. branchOfFile db groups f = Some b) fds)"
proof -
  let ?bbd = "fst (housekeeping [] [] groups)" and ?dirs = "snd (housekeeping [] [] groups)"
  have "\<forall>f\<in>set fds. selectBranch ?bbd ?dirs db f \<noteq> None"
    by (simp add: selectBranch_housekeeping)
  from fileDiffsLoop_char [OF this, of "[(db, [])]", where ?'e = 'e]
  show ?thesis
    unfolding assignFileDiffs_unfold branchOfFile_def by (auto simp: index_def)
qed

lemma map_of_index:
  "map_of m b = (if b \<in> fst ` set m then Some (index m b) else None)"
  by (cases "map_of m b") (auto simp: index_def map_of_eq_None_iff dest: map_of_SomeD intro: rev_image_eqI)

lemma printLoop_Inr:
  assumes "printLoop pr es final = Inr final'"
  shows "(\<forall>(b, ds)\<in>set es. \<exists>t. pr ds = Inr t)
       \<and> (distinct (map fst es) \<longrightarrow>
            (\<forall>b. map_of final' b =
               (case map_of es b of
                  None \<Rightarrow> map_of final b
                | Some ds \<Rightarrow> (case pr ds of Inl _ \<Rightarrow> None | Inr t \<Rightarrow> Some t))))"
  using assms
proof (induction es arbitrary: final)
  case Nil
  then show ?case by simp
next
  case (Cons e es)
  obtain b ds where e: "e = (b, ds)" by (cases e)
  from Cons.prems e obtain t where t: "pr ds = Inr t"
    and rest: "printLoop pr es (AList.update b t final) = Inr final'"
    by (auto split: sum.splits)
  from Cons.IH [OF rest] t e show ?case
    by (auto simp: update_conv' map_of_eq_None_iff [THEN iffD2] split: option.splits)
qed

lemma printLoop_Inl:
  "printLoop pr es final = Inl err \<Longrightarrow>
     \<exists>b ds e. (b, ds) \<in> set es \<and> pr ds = Inl e
       \<and> err = Wrap (Lib e) ''printing multi file diff failed''"
proof (induction es arbitrary: final)
  case Nil
  then show ?case by simp
next
  case (Cons e es)
  obtain b ds where e: "e = (b, ds)" by (cases e)
  show ?case
  proof (cases "pr ds")
    case (Inl x)
    with Cons.prems e show ?thesis by auto
  next
    case (Inr t)
    with Cons.prems e have "printLoop pr es (AList.update b t final) = Inl err" by simp
    from Cons.IH [OF this] show ?thesis by auto
  qed
qed

lemma rangeOrder_set: "rangeOrder r \<Longrightarrow> set (r m) = set m"
  by (auto simp: rangeOrder_def dest: mset_eq_setD)

lemma rangeOrder_distinct:
  assumes "rangeOrder r" "distinct (map fst m)"
  shows "distinct (map fst (r m))"
proof -
  from assms(1) have "mset (r m) = mset m"
    by (simp add: rangeOrder_def)
  then have "image_mset fst (mset (r m)) = image_mset fst (mset m)"
    by simp
  then have "mset (map fst (r m)) = mset (map fst m)"
    by simp
  with assms(2) show ?thesis
    by (metis mset_eq_imp_distinct_iff)
qed

lemma rangeOrder_map_of:
  assumes "rangeOrder r" "distinct (map fst m)"
  shows "map_of (r m) = map_of m"
  using assms rangeOrder_distinct [OF assms] rangeOrder_set [OF assms(1), of m]
  by (simp add: map_of_inject_set)

lemma printLoop_total:
  assumes "\<forall>(b, ds)\<in>set es. \<exists>t. pr ds = Inr t"
  shows "\<exists>final'. printLoop pr es final = Inr final'"
proof (cases "printLoop pr es final")
  case (Inl err)
  from printLoop_Inl [OF this] assms show ?thesis by fastforce
next
  case (Inr final')
  then show ?thesis by simp
qed

lemma groupFileDiffs_unfold:
  assumes "ParseMultiFileDiff (X :: 'e extern) d = Inr fds"
    and "(assignFileDiffs db groups fds :: 'e error + _) = Inr m"
  shows "groupFileDiffs X d db groups =
           printLoop (PrintMultiFileDiff X) (rangeByBranch X m) []"
  using assms by (simp add: groupFileDiffs_def)

lemma groupFileDiffs_Inr:
  assumes ro: "rangeOrder (rangeByBranch X)"
    and parse: "ParseMultiFileDiff (X :: 'e extern) d = Inr fds"
    and ok: "groupFileDiffs X d db groups = Inr final"
  shows "map_of final b = Some t \<longleftrightarrow>
           (b = db \<or> (\<exists>f\<in>set fds. branchOfFile db groups f = Some b))
           \<and> PrintMultiFileDiff X (filter (\<lambda>f. branchOfFile db groups f = Some b) fds) = Inr t"
proof -
  from assignFileDiffs_char [of db groups fds, where ?'e = 'e] obtain m where
    m: "(assignFileDiffs db groups fds :: 'e error + _) = Inr m"
    and d: "distinct (map fst m)"
    and k: "fst ` set m = insert db {b. \<exists>f\<in>set fds. branchOfFile db groups f = Some b}"
    and i: "\<forall>b. index m b = filter (\<lambda>f. branchOfFile db groups f = Some b) fds"
    by blast
  from ok have pl: "printLoop (PrintMultiFileDiff X) (rangeByBranch X m) [] = Inr final"
    by (simp add: groupFileDiffs_unfold [OF parse m])
  have dr: "distinct (map fst (rangeByBranch X m))"
    by (rule rangeOrder_distinct [OF ro d])
  have mo: "map_of (rangeByBranch X m) = map_of m"
    by (rule rangeOrder_map_of [OF ro d])
  from printLoop_Inr [OF pl] dr mo have
    "map_of final b =
       (case map_of m b of None \<Rightarrow> None
        | Some ds \<Rightarrow> (case PrintMultiFileDiff X ds of Inl _ \<Rightarrow> None | Inr t \<Rightarrow> Some t))"
    by (simp split: option.splits)
  also have "map_of m b = (if b \<in> fst ` set m then Some (index m b) else None)"
    by (rule map_of_index)
  finally show ?thesis
    using k i by (auto split: sum.splits)
qed

lemma sum_list_none:
  "k \<notin> set ks \<Longrightarrow> (\<Sum>c\<leftarrow>ks. if k = c then {#x#} else {#}) = {#}"
  by (induction ks) auto

lemma sum_list_single:
  "distinct ks \<Longrightarrow> k \<in> set ks \<Longrightarrow>
     (\<Sum>c\<leftarrow>ks. if k = c then {#x#} else {#}) = {#x#}"
  by (induction ks) (auto simp: sum_list_none)

lemma sum_list_filter_partition:
  assumes "distinct ks" and "\<forall>x\<in>set xs. \<exists>k\<in>set ks. h x = Some k"
  shows "(\<Sum>k\<leftarrow>ks. mset (filter (\<lambda>x. h x = Some k) xs)) = mset xs"
  using assms(2)
proof (induction xs)
  case Nil
  then show ?case by (induction ks) auto
next
  case (Cons x xs)
  then obtain k where k: "k \<in> set ks" "h x = Some k" by auto
  have "(\<Sum>c\<leftarrow>ks. mset (filter (\<lambda>x. h x = Some c) (x # xs))) =
          (\<Sum>c\<leftarrow>ks. (if k = c then {#x#} else {#}) + mset (filter (\<lambda>x. h x = Some c) xs))"
    using k by (intro arg_cong [where f = sum_list] map_cong) auto
  also have "\<dots> = {#x#} + mset xs"
    using Cons sum_list_single [OF assms(1) k(1)] by (simp add: sum_list_addf)
  finally show ?case by simp
qed

lemma snd_index:
  assumes "distinct (map fst m)"
  shows "map snd m = map (index m) (map fst m)"
proof -
  have "\<And>e. e \<in> set m \<Longrightarrow> snd e = index m (fst e)"
    using assms by (auto simp: index_def)
  then show ?thesis by simp
qed

lemma mset_concat_byBranch:
  assumes d: "distinct (map fst m)"
    and k: "\<forall>f\<in>set fds. \<exists>b\<in>fst ` set m. h f = Some b"
    and i: "\<forall>b. index m b = filter (\<lambda>f. h f = Some b) fds"
  shows "mset (concat (map snd m)) = mset fds"
proof -
  have "mset (concat (map snd m)) = (\<Sum>b\<leftarrow>map fst m. mset (index m b))"
    by (simp add: mset_concat snd_index [OF d] comp_def)
  also have "\<dots> = (\<Sum>b\<leftarrow>map fst m. mset (filter (\<lambda>f. h f = Some b) fds))"
    using i by simp
  also have "\<dots> = mset fds"
    using k by (intro sum_list_filter_partition [OF d]) auto
  finally show ?thesis .
qed

lemma matchingDirLoop_no_match:
  "\<forall>d\<in>set ds. \<not> Contains name d \<Longrightarrow> matchingDirLoop name init ds = init"
  by (induction ds arbitrary: init) auto

lemma branchOfFile_no_match:
  assumes "\<forall>g\<in>set groups. \<not> Contains (fileName f) (Directory g)"
  shows "branchOfFile db groups f = Some db"
proof -
  have "matchingDirLoop (fileName f) [] (snd (housekeeping [] [] groups)) = []"
    using assms by (intro matchingDirLoop_no_match) (simp add: housekeeping_dirs)
  then show ?thesis by (simp add: branchOfFile_def selectBranch_def)
qed

section \<open>groupFileDiffs: every file diff in one branch\<close>

text \<open>
  C2. For a combined diff that parses, whatever the groups (so in particular for groups
  that pass validation), the loop over the file diffs never fails and yields a map
  \<open>byBranch\<close> with distinct branches whose lists, taken together, hold every parsed file
  diff as often as the input does: none is dropped and none is duplicated. The lists of
  two different branches have no file diff in common, and a file diff whose path contains
  none of the configured directories is in the list of the default branch. The result of
  \<open>groupFileDiffs\<close> has an entry for a branch exactly when \<open>byBranch\<close> has one, and the entry
  is the printed form of that branch's list; the call succeeds whenever every list prints.
\<close>

theorem groupFileDiffs_partition:
  assumes ro: "rangeOrder (rangeByBranch X)"
    and parse: "ParseMultiFileDiff (X :: 'e extern) completeDiff = Inr fileDiffs"
  shows "\<exists>byBranch.
           (assignFileDiffs defaultBranch groups fileDiffs :: 'e error + _) = Inr byBranch
         \<and> distinct (map fst byBranch)
         \<and> mset (concat (map snd byBranch)) = mset fileDiffs
         \<and> (\<forall>b1 b2. b1 \<noteq> b2 \<longrightarrow> set (index byBranch b1) \<inter> set (index byBranch b2) = {})
         \<and> (\<forall>f\<in>set fileDiffs.
               (\<forall>g\<in>set groups. \<not> Contains (fileName f) (Directory g)) \<longrightarrow>
               f \<in> set (index byBranch defaultBranch))
         \<and> (\<forall>final. groupFileDiffs X completeDiff defaultBranch groups = Inr final \<longrightarrow>
               (\<forall>b t. map_of final b = Some t \<longleftrightarrow>
                  (\<exists>ds. map_of byBranch b = Some ds \<and> PrintMultiFileDiff X ds = Inr t)))
         \<and> ((\<forall>(b, ds)\<in>set byBranch. \<exists>t. PrintMultiFileDiff X ds = Inr t) \<longrightarrow>
              (\<exists>final. groupFileDiffs X completeDiff defaultBranch groups = Inr final))"
proof -
  let ?h = "branchOfFile defaultBranch groups"
  from assignFileDiffs_char [of defaultBranch groups fileDiffs, where ?'e = 'e] obtain m where
    m: "(assignFileDiffs defaultBranch groups fileDiffs :: 'e error + _) = Inr m"
    and d: "distinct (map fst m)"
    and k: "fst ` set m = insert defaultBranch {b. \<exists>f\<in>set fileDiffs. ?h f = Some b}"
    and i: "\<forall>b. index m b = filter (\<lambda>f. ?h f = Some b) fileDiffs"
    by blast
  have cover: "\<forall>f\<in>set fileDiffs. \<exists>b\<in>fst ` set m. ?h f = Some b"
  proof
    fix f assume f: "f \<in> set fileDiffs"
    from branchOfFile_Some [of defaultBranch groups f] obtain b where "?h f = Some b" ..
    with f k show "\<exists>b\<in>fst ` set m. ?h f = Some b" by auto
  qed
  have whole: "mset (concat (map snd m)) = mset fileDiffs"
    by (rule mset_concat_byBranch [OF d cover i])
  have disj: "\<forall>b1 b2. b1 \<noteq> b2 \<longrightarrow> set (index m b1) \<inter> set (index m b2) = {}"
    using i by auto
  have dflt: "\<forall>f\<in>set fileDiffs.
                (\<forall>g\<in>set groups. \<not> Contains (fileName f) (Directory g)) \<longrightarrow>
                f \<in> set (index m defaultBranch)"
    using i by (simp add: branchOfFile_no_match)
  have unf: "groupFileDiffs X completeDiff defaultBranch groups =
               printLoop (PrintMultiFileDiff X) (rangeByBranch X m) []"
    by (rule groupFileDiffs_unfold [OF parse m])
  have fin: "\<forall>final. groupFileDiffs X completeDiff defaultBranch groups = Inr final \<longrightarrow>
               (\<forall>b t. map_of final b = Some t \<longleftrightarrow>
                  (\<exists>ds. map_of m b = Some ds \<and> PrintMultiFileDiff X ds = Inr t))"
  proof (intro allI impI)
    fix final b t
    assume ok: "groupFileDiffs X completeDiff defaultBranch groups = Inr final"
    have "map_of m b = (if b \<in> fst ` set m then Some (index m b) else None)"
      by (rule map_of_index)
    then have "(\<exists>ds. map_of m b = Some ds \<and> PrintMultiFileDiff X ds = Inr t) \<longleftrightarrow>
                 b \<in> fst ` set m \<and> PrintMultiFileDiff X (index m b) = Inr t"
      by simp
    also have "\<dots> \<longleftrightarrow> (b = defaultBranch \<or> (\<exists>f\<in>set fileDiffs. ?h f = Some b))
                 \<and> PrintMultiFileDiff X (filter (\<lambda>f. ?h f = Some b) fileDiffs) = Inr t"
      using k i by simp
    also have "\<dots> \<longleftrightarrow> map_of final b = Some t"
      by (rule groupFileDiffs_Inr [OF ro parse ok, symmetric])
    finally show "map_of final b = Some t \<longleftrightarrow>
            (\<exists>ds. map_of m b = Some ds \<and> PrintMultiFileDiff X ds = Inr t)"
      by simp
  qed
  have tot: "(\<forall>(b, ds)\<in>set m. \<exists>t. PrintMultiFileDiff X ds = Inr t) \<longrightarrow>
               (\<exists>final. groupFileDiffs X completeDiff defaultBranch groups = Inr final)"
  proof
    assume "\<forall>(b, ds)\<in>set m. \<exists>t. PrintMultiFileDiff X ds = Inr t"
    then have "\<forall>(b, ds)\<in>set (rangeByBranch X m). \<exists>t. PrintMultiFileDiff X ds = Inr t"
      by (simp add: rangeOrder_set [OF ro])
    from printLoop_total [OF this] unf
    show "\<exists>final. groupFileDiffs X completeDiff defaultBranch groups = Inr final"
      by simp
  qed
  show ?thesis
    by (rule exI [of _ m]) (intro conjI m d whole disj dflt fin tot)
qed

lemma rangeOrder_example: "rangeOrder (rangeByBranch exampleExtern)"
  by (simp add: rangeOrder_def exampleExtern_def)

lemma assignFileDiffs_example:
  "(assignFileDiffs ''main'' exampleGroups exampleFileDiffs :: string error + _) =
     Inr [(''main'', [exampleB]), (''grouped-backend'', [exampleA, exampleOld])]"
  by (simp add: assignFileDiffs_def Let_def index_def exampleGroups_def exampleFileDiffs_def exampleA_def
        exampleB_def exampleOld_def fileName_def)

theorem groupFileDiffs_partition_witness:
  "rangeOrder (rangeByBranch exampleExtern)
   \<and> ParseMultiFileDiff exampleExtern ''a diff'' = Inr exampleFileDiffs
   \<and> (\<exists>byBranch.
         (assignFileDiffs ''main'' exampleGroups exampleFileDiffs :: string error + _) = Inr byBranch
         \<and> mset (concat (map snd byBranch)) = mset exampleFileDiffs
         \<and> set (index byBranch ''main'') \<inter> set (index byBranch ''grouped-backend'') = {}
         \<and> exampleB \<in> set (index byBranch ''main''))"
proof -
  have ro: "rangeOrder (rangeByBranch exampleExtern)"
    by (simp add: rangeOrder_def exampleExtern_def)
  have parse: "ParseMultiFileDiff exampleExtern ''a diff'' = Inr exampleFileDiffs"
    by (simp add: exampleExtern_def)
  have b: "exampleB \<in> set exampleFileDiffs"
    by (simp add: exampleFileDiffs_def)
  have nomatch: "\<forall>g\<in>set exampleGroups. \<not> Contains (fileName exampleB) (Directory g)"
    by (simp add: exampleGroups_def exampleB_def fileName_def)
  from groupFileDiffs_partition [OF ro parse, of "''main''" exampleGroups]
  obtain byBranch where
    "(assignFileDiffs ''main'' exampleGroups exampleFileDiffs :: string error + _) = Inr byBranch"
    "mset (concat (map snd byBranch)) = mset exampleFileDiffs"
    "\<forall>b1 b2. b1 \<noteq> b2 \<longrightarrow> set (index byBranch b1) \<inter> set (index byBranch b2) = {}"
    "\<forall>f\<in>set exampleFileDiffs.
       (\<forall>g\<in>set exampleGroups. \<not> Contains (fileName f) (Directory g)) \<longrightarrow>
       f \<in> set (index byBranch ''main'')"
    by blast
  with ro parse b nomatch show ?thesis by fastforce
qed

section \<open>groupFileDiffs: which branches the result has\<close>

lemma groupFileDiffs_prints:
  assumes ro: "rangeOrder (rangeByBranch X)"
    and parse: "ParseMultiFileDiff (X :: 'e extern) d = Inr fds"
    and ok: "groupFileDiffs X d db groups = Inr final"
    and b: "b = db \<or> (\<exists>f\<in>set fds. branchOfFile db groups f = Some b)"
  shows "\<exists>t. PrintMultiFileDiff X (filter (\<lambda>f. branchOfFile db groups f = Some b) fds) = Inr t"
proof -
  from assignFileDiffs_char [of db groups fds, where ?'e = 'e] obtain m where
    m: "(assignFileDiffs db groups fds :: 'e error + _) = Inr m"
    and k: "fst ` set m = insert db {b. \<exists>f\<in>set fds. branchOfFile db groups f = Some b}"
    and i: "\<forall>b. index m b = filter (\<lambda>f. branchOfFile db groups f = Some b) fds"
    by blast
  from ok have pl: "printLoop (PrintMultiFileDiff X) (rangeByBranch X m) [] = Inr final"
    by (simp add: groupFileDiffs_unfold [OF parse m])
  from b k have "b \<in> fst ` set m" by auto
  then have "map_of m b = Some (index m b)"
    by (simp add: map_of_index)
  then have "(b, index m b) \<in> set (rangeByBranch X m)"
    by (simp add: rangeOrder_set [OF ro] map_of_SomeD)
  with printLoop_Inr [OF pl] have "\<exists>t. PrintMultiFileDiff X (index m b) = Inr t"
    by auto
  with i show ?thesis by simp
qed

text \<open>
  C6. When \<open>groupFileDiffs\<close> succeeds, its result has an entry for the default branch, the
  printed form of the file diffs assigned to it, which is the printed form of the empty
  list when none was assigned; a branch other than the default branch to which no file
  diff was assigned has no entry; and the entry of every branch is the printed form of
  the input's file diffs assigned to that branch, in the order of the input. The map
  built by the loop has the default branch as a key in every case.
\<close>

theorem groupFileDiffs_default_present_order:
  assumes ro: "rangeOrder (rangeByBranch X)"
    and parse: "ParseMultiFileDiff (X :: 'e extern) completeDiff = Inr fileDiffs"
    and ok: "groupFileDiffs X completeDiff defaultBranch groups = Inr final"
  shows "(\<exists>t. map_of final defaultBranch = Some t
            \<and> PrintMultiFileDiff X
                 (filter (\<lambda>f. branchOfFile defaultBranch groups f = Some defaultBranch) fileDiffs) = Inr t)
       \<and> ((\<forall>f\<in>set fileDiffs. branchOfFile defaultBranch groups f \<noteq> Some defaultBranch) \<longrightarrow>
            (\<exists>t. map_of final defaultBranch = Some t \<and> PrintMultiFileDiff X [] = Inr t))
       \<and> (\<forall>b. b \<noteq> defaultBranch \<longrightarrow>
              (\<forall>f\<in>set fileDiffs. branchOfFile defaultBranch groups f \<noteq> Some b) \<longrightarrow>
              map_of final b = None)
       \<and> (\<forall>b t. map_of final b = Some t \<longrightarrow>
              PrintMultiFileDiff X
                (filter (\<lambda>f. branchOfFile defaultBranch groups f = Some b) fileDiffs) = Inr t)
       \<and> (\<exists>byBranch ds.
              (assignFileDiffs defaultBranch groups fileDiffs :: 'e error + _) = Inr byBranch
              \<and> map_of byBranch defaultBranch = Some ds)"
proof -
  let ?h = "branchOfFile defaultBranch groups"
  note char = groupFileDiffs_Inr [OF ro parse ok]
  from groupFileDiffs_prints [OF ro parse ok, of defaultBranch] obtain t where
    t: "PrintMultiFileDiff X (filter (\<lambda>f. ?h f = Some defaultBranch) fileDiffs) = Inr t"
    by auto
  then have dflt: "map_of final defaultBranch = Some t"
    by (simp add: char)
  have a: "\<exists>t. map_of final defaultBranch = Some t
             \<and> PrintMultiFileDiff X (filter (\<lambda>f. ?h f = Some defaultBranch) fileDiffs) = Inr t"
    using t dflt by blast
  have b: "(\<forall>f\<in>set fileDiffs. ?h f \<noteq> Some defaultBranch) \<longrightarrow>
             (\<exists>t. map_of final defaultBranch = Some t \<and> PrintMultiFileDiff X [] = Inr t)"
  proof
    assume "\<forall>f\<in>set fileDiffs. ?h f \<noteq> Some defaultBranch"
    then have "filter (\<lambda>f. ?h f = Some defaultBranch) fileDiffs = []"
      by (simp add: filter_empty_conv)
    with t dflt show "\<exists>t. map_of final defaultBranch = Some t \<and> PrintMultiFileDiff X [] = Inr t"
      by simp
  qed
  have c: "\<forall>b. b \<noteq> defaultBranch \<longrightarrow> (\<forall>f\<in>set fileDiffs. ?h f \<noteq> Some b) \<longrightarrow>
             map_of final b = None"
  proof (intro allI impI)
    fix b assume "b \<noteq> defaultBranch" "\<forall>f\<in>set fileDiffs. ?h f \<noteq> Some b"
    then have "\<And>t. map_of final b \<noteq> Some t"
      by (simp add: char)
    then show "map_of final b = None"
      by (cases "map_of final b") auto
  qed
  have d: "\<forall>b t. map_of final b = Some t \<longrightarrow>
             PrintMultiFileDiff X (filter (\<lambda>f. ?h f = Some b) fileDiffs) = Inr t"
    by (simp add: char)
  from assignFileDiffs_char [of defaultBranch groups fileDiffs, where ?'e = 'e] obtain m where
    m: "(assignFileDiffs defaultBranch groups fileDiffs :: 'e error + _) = Inr m"
    and k: "fst ` set m = insert defaultBranch {b. \<exists>f\<in>set fileDiffs. ?h f = Some b}"
    by blast
  from k have "map_of m defaultBranch = Some (index m defaultBranch)"
    by (simp add: map_of_index)
  with m have e: "\<exists>byBranch ds.
      (assignFileDiffs defaultBranch groups fileDiffs :: 'e error + _) = Inr byBranch
      \<and> map_of byBranch defaultBranch = Some ds"
    by blast
  from a b c d e show ?thesis by (intro conjI)
qed

lemma groupFileDiffs_example:
  "groupFileDiffs exampleExtern ''a diff'' ''main'' exampleGroups =
     Inr [(''main'', ''frontend/b.ts frontend/b.ts; ''),
          (''grouped-backend'', ''backend/a.go backend/a.go; backend/old.go /dev/null; '')]"
  by (simp add: groupFileDiffs_def assignFileDiffs_example exampleExtern_def
        exampleA_def exampleB_def exampleOld_def)

theorem groupFileDiffs_default_present_order_witness:
  "rangeOrder (rangeByBranch exampleExtern)
   \<and> ParseMultiFileDiff exampleExtern ''a diff'' = Inr exampleFileDiffs
   \<and> groupFileDiffs exampleExtern ''a diff'' ''main'' exampleGroups =
       Inr [(''main'', ''frontend/b.ts frontend/b.ts; ''),
            (''grouped-backend'', ''backend/a.go backend/a.go; backend/old.go /dev/null; '')]
   \<and> PrintMultiFileDiff exampleExtern
        (filter (\<lambda>f. branchOfFile ''main'' exampleGroups f = Some ''grouped-backend'')
           exampleFileDiffs) =
       Inr ''backend/a.go backend/a.go; backend/old.go /dev/null; ''"
proof -
  have ro: "rangeOrder (rangeByBranch exampleExtern)"
    by (rule rangeOrder_example)
  have parse: "ParseMultiFileDiff exampleExtern ''a diff'' = Inr exampleFileDiffs"
    by (simp add: exampleExtern_def)
  note ok = groupFileDiffs_example
  from groupFileDiffs_default_present_order [OF ro parse ok]
  have "\<forall>b t. map_of [(''main'', ''frontend/b.ts frontend/b.ts; ''),
            (''grouped-backend'', ''backend/a.go backend/a.go; backend/old.go /dev/null; '')] b = Some t \<longrightarrow>
          PrintMultiFileDiff exampleExtern
            (filter (\<lambda>f. branchOfFile ''main'' exampleGroups f = Some b) exampleFileDiffs) = Inr t"
    by blast
  then have "PrintMultiFileDiff exampleExtern
        (filter (\<lambda>f. branchOfFile ''main'' exampleGroups f = Some ''grouped-backend'')
           exampleFileDiffs) =
       Inr ''backend/a.go backend/a.go; backend/old.go /dev/null; ''"
    by simp
  with ro parse ok show ?thesis by simp
qed

section \<open>groupFileDiffs: the panic is never taken\<close>

lemma groupFileDiffs_Inl:
  assumes "groupFileDiffs (X :: 'e extern) d db groups = Inl err"
  shows "(\<exists>e. ParseMultiFileDiff X d = Inl e \<and> err = Lib e)
       \<or> (\<exists>fds ds e. ParseMultiFileDiff X d = Inr fds \<and> PrintMultiFileDiff X ds = Inl e
             \<and> err = Wrap (Lib e) ''printing multi file diff failed'')"
proof (cases "ParseMultiFileDiff X d")
  case (Inl e)
  with assms show ?thesis by (simp add: groupFileDiffs_def)
next
  case (Inr fds)
  from assignFileDiffs_char [of db groups fds, where ?'e = 'e] obtain m where
    m: "(assignFileDiffs db groups fds :: 'e error + _) = Inr m" by blast
  from assms have "printLoop (PrintMultiFileDiff X) (rangeByBranch X m) [] = Inl err"
    by (simp add: groupFileDiffs_unfold [OF Inr m])
  from printLoop_Inl [OF this] Inr show ?thesis by blast
qed

text \<open>
  C10. With the lookup and the directories that lines 189--194 build from one group list,
  the directory selected for a path is the empty string or a key of the lookup. So the
  loop over the file diffs never takes the panic of line 225, and neither
  \<open>assignFileDiffs\<close> nor \<open>groupFileDiffs\<close> ends in a panic, for any diff, any groups and any
  libraries.
\<close>

theorem groupFileDiffs_no_panic:
  "(matchingDirLoop name '''' (snd (housekeeping [] [] groups)) \<noteq> '''' \<longrightarrow>
      map_of (fst (housekeeping [] [] groups))
        (matchingDirLoop name '''' (snd (housekeeping [] [] groups))) \<noteq> None)
   \<and> (assignFileDiffs defaultBranch groups fileDiffs :: 'e error + _) \<noteq> Inl (Panic msg)
   \<and> groupFileDiffs (X :: 'e extern) completeDiff defaultBranch groups \<noteq> Inl (Panic msg)"
proof (intro conjI impI)
  let ?md = "matchingDirLoop name [] (snd (housekeeping [] [] groups))"
  assume "?md \<noteq> []"
  moreover have "?md = [] \<or> ?md \<in> set (snd (housekeeping [] [] groups))"
    by (rule matchingDirLoop_mem)
  ultimately have "?md \<in> fst ` set (fst (housekeeping [] [] groups))"
    by (simp add: housekeeping_dirs housekeeping_keys)
  then show "map_of (fst (housekeeping [] [] groups)) ?md \<noteq> None"
    by (simp add: map_of_eq_None_iff)
next
  from assignFileDiffs_char [of defaultBranch groups fileDiffs, where ?'e = 'e]
  show "(assignFileDiffs defaultBranch groups fileDiffs :: 'e error + _) \<noteq> Inl (Panic msg)"
    by auto
next
  show "groupFileDiffs X completeDiff defaultBranch groups \<noteq> Inl (Panic msg)"
    using groupFileDiffs_Inl [of X completeDiff defaultBranch groups "Panic msg"] by auto
qed

theorem groupFileDiffs_no_panic_witness:
  "matchingDirLoop ''backend/a.go'' '''' (snd (housekeeping [] [] exampleGroups)) = ''backend/''
   \<and> map_of (fst (housekeeping [] [] exampleGroups)) ''backend/'' = Some ''grouped-backend''
   \<and> (assignFileDiffs ''main'' exampleGroups exampleFileDiffs :: string error + _) \<noteq> Inl (Panic '''')
   \<and> groupFileDiffs exampleExtern ''not a diff'' ''main'' exampleGroups \<noteq> Inl (Panic '''')"
  using groupFileDiffs_no_panic
    [of "''backend/a.go''" exampleGroups "''main''" exampleFileDiffs "''''" exampleExtern
        "''not a diff''"]
  by (simp add: exampleGroups_def)

section \<open>groupFileDiffs: an empty directory declared last\<close>

lemma fileDiffsLoop_all_default:
  assumes "\<forall>f\<in>set fs. selectBranch bbd dirs db f = Some db"
  shows "(fileDiffsLoop bbd dirs db fs [(db, acc)] :: 'e error + _) = Inr [(db, acc @ fs)]"
  using assms
proof (induction fs arbitrary: acc)
  case Nil
  then show ?case by simp
next
  case (Cons f fs)
  from Cons.prems have f: "selectBranch bbd dirs db f = Some db" by simp
  have "(fileDiffsLoop bbd dirs db (f # fs) [(db, acc)] :: 'e error + _) =
          fileDiffsLoop bbd dirs db fs [(db, acc @ [f])]"
    using f by (auto simp: selectBranch_def Let_def index_def split: if_splits)
  also have "\<dots> = Inr [(db, (acc @ [f]) @ fs)]"
    using Cons.prems by (intro Cons.IH) simp
  finally show ?case by simp
qed

lemma rangeOrder_single:
  assumes "rangeOrder r"
  shows "r [x] = [x]"
proof -
  from assms have "mset (r [x]) = {#x#}"
    by (simp add: rangeOrder_def)
  then show ?thesis by (simp add: mset_single_iff_right)
qed

lemma branchOfFile_empty_last:
  assumes "Directory g = ''''"
  shows "branchOfFile db (gs @ [g]) f = Some db"
  using assms
  by (simp add: branchOfFile_def selectBranch_def housekeeping_append matchingDirLoop_append)

text \<open>
  C9. When the group declared last has the empty string as its directory, the directory
  selected for every path is the empty string, which the code takes for no match: every
  file diff goes to the default branch, also one whose path contains the directory of an
  earlier group. The map built by the loop is the single entry of the default branch with
  all file diffs of the input in their order, so a branch other than the default branch
  receives no file diff, and the result of \<open>groupFileDiffs\<close> is the single entry of the
  default branch with the printed form of the whole input, or the printing failure.
\<close>

theorem groupFileDiffs_empty_directory_last:
  assumes "Directory g = ''''"
  shows "matchingDirLoop (fileName f) '''' (snd (housekeeping [] [] (gs @ [g]))) = ''''
       \<and> branchOfFile defaultBranch (gs @ [g]) f = Some defaultBranch
       \<and> (assignFileDiffs defaultBranch (gs @ [g]) fileDiffs :: 'e error + _) =
            Inr [(defaultBranch, fileDiffs)]
       \<and> (\<forall>b. b \<noteq> defaultBranch \<longrightarrow> index [(defaultBranch, fileDiffs)] b = [])
       \<and> (rangeOrder (rangeByBranch X) \<longrightarrow>
            ParseMultiFileDiff (X :: 'e extern) completeDiff = Inr fileDiffs \<longrightarrow>
            groupFileDiffs X completeDiff defaultBranch (gs @ [g]) =
              (case PrintMultiFileDiff X fileDiffs of
                 Inl e \<Rightarrow> Inl (Wrap (Lib e) ''printing multi file diff failed'')
               | Inr t \<Rightarrow> Inr [(defaultBranch, t)]))"
proof (intro conjI impI allI)
  show "matchingDirLoop (fileName f) '''' (snd (housekeeping [] [] (gs @ [g]))) = ''''"
    using assms by (simp add: housekeeping_append matchingDirLoop_append)
next
  show "branchOfFile defaultBranch (gs @ [g]) f = Some defaultBranch"
    by (rule branchOfFile_empty_last [OF assms])
next
  have "\<forall>f\<in>set fileDiffs.
          selectBranch (fst (housekeeping [] [] (gs @ [g]))) (snd (housekeeping [] [] (gs @ [g])))
            defaultBranch f = Some defaultBranch"
    using branchOfFile_empty_last [OF assms, of defaultBranch gs]
    by (simp add: branchOfFile_def)
  from fileDiffsLoop_all_default [OF this, of "[]", where ?'e = 'e]
  show assign: "(assignFileDiffs defaultBranch (gs @ [g]) fileDiffs :: 'e error + _) =
          Inr [(defaultBranch, fileDiffs)]"
    by (simp add: assignFileDiffs_unfold)
  {
    assume ro: "rangeOrder (rangeByBranch X)"
      and parse: "ParseMultiFileDiff X completeDiff = Inr fileDiffs"
    show "groupFileDiffs X completeDiff defaultBranch (gs @ [g]) =
            (case PrintMultiFileDiff X fileDiffs of
               Inl e \<Rightarrow> Inl (Wrap (Lib e) ''printing multi file diff failed'')
             | Inr t \<Rightarrow> Inr [(defaultBranch, t)])"
      by (simp add: groupFileDiffs_unfold [OF parse assign] rangeOrder_single [OF ro]
            split: sum.splits)
  }
next
  fix b :: string
  assume "b \<noteq> defaultBranch"
  then show "index [(defaultBranch, fileDiffs)] b = []"
    by (simp add: index_def)
qed

theorem groupFileDiffs_empty_directory_last_witness:
  "Directory \<lparr>Directory = '''', Branch = ''everything'', Repository = ''''\<rparr> = ''''
   \<and> (assignFileDiffs ''main'' exampleEmptyLast exampleFileDiffs :: string error + _) =
        Inr [(''main'', exampleFileDiffs)]
   \<and> groupFileDiffs exampleExtern ''a diff'' ''main'' exampleEmptyLast =
        Inr [(''main'',
          ''backend/a.go backend/a.go; frontend/b.ts frontend/b.ts; backend/old.go /dev/null; '')]"
proof -
  have g: "Directory \<lparr>Directory = '''', Branch = ''everything'', Repository = ''''\<rparr> = ''''"
    by simp
  have ro: "rangeOrder (rangeByBranch exampleExtern)"
    by (rule rangeOrder_example)
  have parse: "ParseMultiFileDiff exampleExtern ''a diff'' = Inr exampleFileDiffs"
    by (simp add: exampleExtern_def)
  have pr: "PrintMultiFileDiff exampleExtern exampleFileDiffs =
      Inr ''backend/a.go backend/a.go; frontend/b.ts frontend/b.ts; backend/old.go /dev/null; ''"
    by (simp add: exampleExtern_def exampleFileDiffs_def exampleA_def exampleB_def exampleOld_def)
  from groupFileDiffs_empty_directory_last
    [OF g, of _
       "[\<lparr>Directory = ''backend/'', Branch = ''grouped-backend'', Repository = ''''\<rparr>]"
       "''main''" exampleFileDiffs exampleExtern "''a diff''"]
    ro parse pr g
  show ?thesis by (simp add: exampleEmptyLast_def)
qed

section \<open>groupFileDiffs: the last matching directory\<close>

lemma lastMatchingGroup_alt:
  "lastMatchingGroup name gs =
     (if filter (\<lambda>g. Contains name (Directory g)) gs = [] then None
      else Some (last (filter (\<lambda>g. Contains name (Directory g)) gs)))"
  by (cases "filter (\<lambda>g. Contains name (Directory g)) gs")
     (simp_all add: lastMatchingGroup_def)

lemma lastMatchingGroup_snoc:
  "lastMatchingGroup name (gs @ [h]) =
     (if Contains name (Directory h) then Some h else lastMatchingGroup name gs)"
  by (simp add: lastMatchingGroup_alt)

lemma lastMatchingGroup_None:
  "lastMatchingGroup name gs = None \<longleftrightarrow> (\<forall>g\<in>set gs. \<not> Contains name (Directory g))"
  by (simp add: lastMatchingGroup_alt filter_empty_conv)

lemma lastMatchingGroup_dir:
  "lastMatchingGroup name gs = Some g \<Longrightarrow>
     Contains name (Directory g) \<and> g \<in> set gs
     \<and> matchingDirLoop name init (snd (housekeeping [] [] gs)) = Directory g"
proof (induction gs rule: rev_induct)
  case Nil
  then show ?case by (simp add: lastMatchingGroup_def)
next
  case (snoc h gs)
  then show ?case
    by (auto simp: lastMatchingGroup_snoc housekeeping_append matchingDirLoop_append
          housekeeping_dirs split: if_splits)
qed

lemma lastMatchingGroup_lookup:
  "lastMatchingGroup name gs = Some g \<Longrightarrow>
     map_of (fst (housekeeping [] [] gs)) (Directory g) = Some (Branch g)"
proof (induction gs rule: rev_induct)
  case Nil
  then show ?case by (simp add: lastMatchingGroup_def)
next
  case (snoc h gs)
  show ?case
  proof (cases "Contains name (Directory h)")
    case True
    with snoc.prems have "g = h" by (simp add: lastMatchingGroup_snoc)
    then show ?thesis by (simp add: housekeeping_append update_conv')
  next
    case False
    with snoc.prems have g: "lastMatchingGroup name gs = Some g"
      by (simp add: lastMatchingGroup_snoc)
    from lastMatchingGroup_dir [OF g] False have "Directory g \<noteq> Directory h" by auto
    with snoc.IH [OF g] show ?thesis by (simp add: housekeeping_append update_conv')
  qed
qed

lemma branchOfFile_lastMatchingGroup:
  "branchOfFile db groups f =
     (case lastMatchingGroup (fileName f) groups of
        None \<Rightarrow> Some db
      | Some g \<Rightarrow> if Directory g = '''' then Some db else Some (Branch g))"
proof (cases "lastMatchingGroup (fileName f) groups")
  case None
  then have "\<forall>g\<in>set groups. \<not> Contains (fileName f) (Directory g)"
    by (simp add: lastMatchingGroup_None)
  from branchOfFile_no_match [OF this] None show ?thesis by simp
next
  case (Some g)
  from lastMatchingGroup_dir [OF Some, of "[]"] lastMatchingGroup_lookup [OF Some] Some
  show ?thesis by (simp add: branchOfFile_def selectBranch_def)
qed

text \<open>
  C3. The claim is the rule that the code's own comments state (lines 206--207: the last
  match wins; line 222: a file that did match a directory gets that directory's branch),
  and the code breaks it at this input: the groups send \<^verbatim>\<open>backend/\<close> to \<^verbatim>\<open>grouped-backend\<close>
  and then the empty directory to \<^verbatim>\<open>everything\<close>, the default branch is \<^verbatim>\<open>main\<close>, and the
  diff touches \<^verbatim>\<open>backend/a.go\<close>. The path contains both directories, and the group
  declared last among the matching ones is the one with the branch \<^verbatim>\<open>everything\<close>. The
  code selects the empty string as the matching directory, which is also the start value
  of line 208, takes it at line 217 for no match, and puts the file diff in the default
  branch \<^verbatim>\<open>main\<close>: neither \<^verbatim>\<open>everything\<close> nor the earlier match \<^verbatim>\<open>grouped-backend\<close>
  receives it.
\<close>

theorem lastMatch_empty_directory_failing_input:
  "Contains (fileName exampleA) ''backend/''
   \<and> Contains (fileName exampleA) ''''
   \<and> lastMatchingGroup (fileName exampleA) exampleEmptyLast =
       Some \<lparr>Directory = '''', Branch = ''everything'', Repository = ''''\<rparr>
   \<and> matchingDirLoop (fileName exampleA) '''' (snd (housekeeping [] [] exampleEmptyLast)) = ''''
   \<and> branchOfFile ''main'' exampleEmptyLast exampleA = Some ''main''
   \<and> (assignFileDiffs ''main'' exampleEmptyLast [exampleA] :: string error + _) =
       Inr [(''main'', [exampleA])]
   \<and> groupFileDiffs exampleExtern ''a diff'' ''main'' exampleEmptyLast =
       Inr [(''main'',
         ''backend/a.go backend/a.go; frontend/b.ts frontend/b.ts; backend/old.go /dev/null; '')]"
  by (simp add: exampleEmptyLast_def exampleA_def exampleB_def exampleOld_def exampleFileDiffs_def
        exampleExtern_def fileName_def lastMatchingGroup_def branchOfFile_def selectBranch_def
        groupFileDiffs_def assignFileDiffs_def Let_def index_def)


section \<open>createChangesetSpecs: the publication value\<close>

lemma createChangesetSpecs_fields:
  "createChangesetSpecs X task result features =
     (case renderFields X task result features of
        Inl err \<Rightarrow> Inl err
      | Inr (authorName, authorEmail, title, body, message, defaultBranch) \<Rightarrow>
          assemble X task result defaultBranch
            (newSpec X task features authorName authorEmail title body message))"
  by (simp add: createChangesetSpecs_def renderFields_def Let_def split: sum.splits prod.splits)

lemma newSpec_result:
  "newSpec X task features authorName authorEmail title body message branch diff =
     (if Template_Published (Task_Template task) = None \<and> \<not> AllowOptionalPublished features
      then Inl errOptionalPublishedUnsupported
      else Inr \<lparr>BaseRepository = Repo_ID (Task_Repository task),
                BaseRef = Repo_BaseRef (Task_Repository task),
                BaseRev = Repo_Rev (Task_Repository task),
                HeadRepository = Repo_ID (Task_Repository task),
                HeadRef = EnsureRefPrefix X branch,
                Title = title,
                Body = body,
                Commits = [\<lparr>Message = message, AuthorName = authorName,
                            AuthorEmail = authorEmail, Diff = diff\<rparr>],
                Published = publicationValue task features branch\<rparr>)"
  by (simp add: newSpec_def publicationValue_def Let_def split: option.splits)

lemma specsLoop_Inr:
  "specsLoop mk es acc = Inr specs \<Longrightarrow>
     \<exists>new. specs = acc @ new \<and> list_all2 (\<lambda>(b, d) s. mk b d = Inr s) es new"
proof (induction es arbitrary: acc)
  case Nil
  then show ?case by simp
next
  case (Cons e es)
  obtain b d where e: "e = (b, d)" by (cases e)
  from Cons.prems e obtain s where s: "mk b d = Inr s"
    and rest: "specsLoop mk es (acc @ [s]) = Inr specs"
    by (auto split: sum.splits)
  from Cons.IH [OF rest] obtain new where
    "specs = (acc @ [s]) @ new" "list_all2 (\<lambda>(b, d) s. mk b d = Inr s) es new"
    by blast
  with s e have "specs = acc @ (s # new) \<and> list_all2 (\<lambda>(b, d) s. mk b d = Inr s) (e # es) (s # new)"
    by simp
  then show ?case by blast
qed

lemma specsLoop_mem:
  assumes "specsLoop mk es [] = Inr specs" and "spec \<in> set specs"
  shows "\<exists>(b, d)\<in>set es. mk b d = Inr spec"
proof -
  from specsLoop_Inr [OF assms(1)] have l: "list_all2 (\<lambda>(b, d) s. mk b d = Inr s) es specs"
    by simp
  from assms(2) obtain i where i: "i < length specs" "specs ! i = spec"
    by (auto simp: in_set_conv_nth)
  with l have "(\<lambda>(b, d) s. mk b d = Inr s) (es ! i) spec" "i < length es"
    by (auto simp: list_all2_conv_all_nth)
  then show ?thesis
    by (auto simp: in_set_conv_nth split: prod.splits intro!: bexI [of _ "es ! i"])
qed

lemma assemble_mem:
  assumes "assemble X task result defaultBranch mk = Inr specs" and "spec \<in> set specs"
  shows "\<exists>branch diff. mk branch diff = Inr spec"
proof (cases "groupsForRepository (Repo_Name (Task_Repository task)) (Task_TransformChanges task) = []")
  case True
  with assms have "mk defaultBranch (Result_Diff result) = Inr spec"
    by (auto simp: assemble_def Let_def split: sum.splits)
  then show ?thesis by blast
next
  case False
  with assms(1) obtain diffsByBranch where
    "specsLoop mk (rangeDiffsByBranch X diffsByBranch) [] = Inr specs"
    by (auto simp: assemble_def Let_def split: option.splits sum.splits)
  from specsLoop_mem [OF this assms(2)] show ?thesis by auto
qed

lemma groupFileDiffs_nonempty:
  assumes ro: "rangeOrder (rangeByBranch X)"
    and ok: "groupFileDiffs (X :: 'e extern) d db groups = Inr final"
  shows "final \<noteq> []"
proof -
  from ok obtain fds where parse: "ParseMultiFileDiff X d = Inr fds"
    by (auto simp: groupFileDiffs_def split: sum.splits)
  from groupFileDiffs_prints [OF ro parse ok, of db] obtain t where
    "PrintMultiFileDiff X (filter (\<lambda>f. branchOfFile db groups f = Some db) fds) = Inr t"
    by auto
  then have "map_of final db = Some t"
    by (simp add: groupFileDiffs_Inr [OF ro parse ok])
  then show ?thesis by auto
qed

lemma rangeOrder_nonempty: "rangeOrder r \<Longrightarrow> m \<noteq> [] \<Longrightarrow> r m \<noteq> []"
  by (metis rangeOrder_set set_empty)

lemma specsLoop_all_fail:
  assumes "es \<noteq> []" and "\<And>b d. mk b d = Inl err"
  shows "specsLoop mk es acc = Inl err"
  using assms by (cases es) auto

lemma assemble_unpublished:
  assumes none: "Template_Published (Task_Template task) = None"
    and old: "\<not> AllowOptionalPublished features"
    and ro: "rangeOrder (rangeByBranch (X :: 'e extern))"
    and ro': "rangeOrder (rangeDiffsByBranch X)"
  shows "\<exists>err. assemble X task result defaultBranch
                 (newSpec X task features authorName authorEmail title body message) = Inl err
           \<and> (err = errOptionalPublishedUnsupported
               \<or> validateGroups (Repo_Name (Task_Repository task))
                    (Template_Branch (Task_Template task))
                    (groupsForRepository (Repo_Name (Task_Repository task))
                       (Task_TransformChanges task)) = Some err
               \<or> (\<exists>e. groupFileDiffs X (Result_Diff result) defaultBranch
                          (groupsForRepository (Repo_Name (Task_Repository task))
                             (Task_TransformChanges task)) = Inl e
                        \<and> err = wrapGrouping e))"
proof -
  let ?mk = "newSpec X task features authorName authorEmail title body message"
  let ?groups = "groupsForRepository (Repo_Name (Task_Repository task)) (Task_TransformChanges task)"
  have mk: "\<And>b d. ?mk b d = Inl errOptionalPublishedUnsupported"
    using none old by (simp add: newSpec_result)
  show ?thesis
  proof (cases "?groups = []")
    case True
    then show ?thesis by (simp add: assemble_def mk)
  next
    case False
    show ?thesis
    proof (cases "validateGroups (Repo_Name (Task_Repository task))
                    (Template_Branch (Task_Template task)) ?groups :: 'e error option")
      case (Some err)
      with False show ?thesis by (simp add: assemble_def)
    next
      case None
      show ?thesis
      proof (cases "groupFileDiffs X (Result_Diff result) defaultBranch ?groups")
        case (Inl e)
        with False None show ?thesis by (simp add: assemble_def)
      next
        case (Inr diffsByBranch)
        from groupFileDiffs_nonempty [OF ro Inr] have "rangeDiffsByBranch X diffsByBranch \<noteq> []"
          by (rule rangeOrder_nonempty [OF ro'])
        from specsLoop_all_fail [OF this mk] False None Inr show ?thesis
          by (simp add: assemble_def)
      qed
    qed
  qed
qed

text \<open>
  C1. For every task, branch and diff, \<open>newSpec\<close> resolves the publication value as
  follows. With a publication policy, the spec is built and its value is the policy's
  value for the repository name and the branch, except that an absent value becomes
  exactly \<^verbatim>\<open>false\<close> when \<open>AllowOptionalPublished\<close> is false, and stays absent when it is
  true. Without a policy, the spec is built with an absent value when
  \<open>AllowOptionalPublished\<close> is true, and \<open>newSpec\<close> fails with the validation error
  \<open>errOptionalPublishedUnsupported\<close> when it is false. Every spec that
  \<open>createChangesetSpecs\<close> returns carries the value so resolved for its branch; and without
  a policy and with \<open>AllowOptionalPublished\<close> false the whole call fails, with that
  validation error unless rendering, validation or grouping failed before.
\<close>

theorem publication_value_resolution:
  "(\<forall>v. Template_Published (Task_Template task) = Some v \<longrightarrow>
      (\<exists>spec. newSpec X task features authorName authorEmail title body message branch diff = Inr spec
         \<and> Published spec =
             (if v (Repo_Name (Task_Repository task)) branch = IfaceNil
              then (if AllowOptionalPublished features then IfaceNil else IfaceBool False)
              else v (Repo_Name (Task_Repository task)) branch)))
   \<and> (Template_Published (Task_Template task) = None \<longrightarrow> AllowOptionalPublished features \<longrightarrow>
        (\<exists>spec. newSpec X task features authorName authorEmail title body message branch diff = Inr spec
           \<and> Published spec = IfaceNil))
   \<and> (Template_Published (Task_Template task) = None \<longrightarrow> \<not> AllowOptionalPublished features \<longrightarrow>
        newSpec X task features authorName authorEmail title body message branch diff =
          Inl errOptionalPublishedUnsupported
        \<and> (\<exists>msg. (errOptionalPublishedUnsupported :: 'e error) = NewValidationError (New msg)))
   \<and> (\<forall>specs. createChangesetSpecs X task result features = Inr specs \<longrightarrow>
        (\<forall>spec\<in>set specs. \<exists>branch.
           HeadRef spec = EnsureRefPrefix X branch
           \<and> Published spec = publicationValue task features branch))
   \<and> (Template_Published (Task_Template task) = None \<longrightarrow> \<not> AllowOptionalPublished features \<longrightarrow>
        rangeOrder (rangeByBranch X) \<longrightarrow> rangeOrder (rangeDiffsByBranch X) \<longrightarrow>
        (\<exists>err. createChangesetSpecs (X :: 'e extern) task result features = Inl err
           \<and> (err = errOptionalPublishedUnsupported
               \<or> renderFields X task result features = Inl err
               \<or> validateGroups (Repo_Name (Task_Repository task))
                    (Template_Branch (Task_Template task))
                    (groupsForRepository (Repo_Name (Task_Repository task))
                       (Task_TransformChanges task)) = Some err
               \<or> (\<exists>e defaultBranch.
                      groupFileDiffs X (Result_Diff result) defaultBranch
                        (groupsForRepository (Repo_Name (Task_Repository task))
                           (Task_TransformChanges task)) = Inl e
                      \<and> err = wrapGrouping e))))"
proof (intro conjI allI impI ballI)
  fix v
  assume "Template_Published (Task_Template task) = Some v"
  then show "\<exists>spec. newSpec X task features authorName authorEmail title body message branch diff = Inr spec
         \<and> Published spec =
             (if v (Repo_Name (Task_Repository task)) branch = IfaceNil
              then (if AllowOptionalPublished features then IfaceNil else IfaceBool False)
              else v (Repo_Name (Task_Repository task)) branch)"
    by (simp add: newSpec_result publicationValue_def)
next
  assume "Template_Published (Task_Template task) = None" "AllowOptionalPublished features"
  then show "\<exists>spec. newSpec X task features authorName authorEmail title body message branch diff = Inr spec
           \<and> Published spec = IfaceNil"
    by (simp add: newSpec_result publicationValue_def)
next
  assume "Template_Published (Task_Template task) = None" "\<not> AllowOptionalPublished features"
  then show "newSpec X task features authorName authorEmail title body message branch diff =
          Inl errOptionalPublishedUnsupported"
    by (simp add: newSpec_result)
next
  show "\<exists>msg. (errOptionalPublishedUnsupported :: 'e error) = NewValidationError (New msg)"
    by (simp add: errOptionalPublishedUnsupported_def)
next
  fix specs spec
  assume ok: "createChangesetSpecs X task result features = Inr specs" and mem: "spec \<in> set specs"
  from ok obtain an ae t b m db where
    "assemble X task result db (newSpec X task features an ae t b m) = Inr specs"
    by (auto simp: createChangesetSpecs_fields split: sum.splits)
  from assemble_mem [OF this mem] obtain br d where
    "newSpec X task features an ae t b m br d = Inr spec" by blast
  then have "HeadRef spec = EnsureRefPrefix X br \<and> Published spec = publicationValue task features br"
    by (auto simp: newSpec_result split: if_splits)
  then show "\<exists>branch. HeadRef spec = EnsureRefPrefix X branch
           \<and> Published spec = publicationValue task features branch"
    by blast
next
  assume none: "Template_Published (Task_Template task) = None"
    and old: "\<not> AllowOptionalPublished features"
    and ro: "rangeOrder (rangeByBranch X)" and ro': "rangeOrder (rangeDiffsByBranch X)"
  let ?goal = "\<exists>err. createChangesetSpecs X task result features = Inl err
           \<and> (err = errOptionalPublishedUnsupported
               \<or> renderFields X task result features = Inl err
               \<or> validateGroups (Repo_Name (Task_Repository task))
                    (Template_Branch (Task_Template task))
                    (groupsForRepository (Repo_Name (Task_Repository task))
                       (Task_TransformChanges task)) = Some err
               \<or> (\<exists>e defaultBranch.
                      groupFileDiffs X (Result_Diff result) defaultBranch
                        (groupsForRepository (Repo_Name (Task_Repository task))
                           (Task_TransformChanges task)) = Inl e
                      \<and> err = wrapGrouping e))"
  show ?goal
  proof (cases "renderFields X task result features")
    case (Inl err)
    then show ?thesis by (simp add: createChangesetSpecs_fields)
  next
    case (Inr flds)
    obtain an ae t b m db where flds: "flds = (an, ae, t, b, m, db)"
      by (cases flds) auto
    from assemble_unpublished [OF none old ro ro', of result db an ae t b m]
    obtain err where
      "assemble X task result db (newSpec X task features an ae t b m) = Inl err"
      "err = errOptionalPublishedUnsupported
       \<or> validateGroups (Repo_Name (Task_Repository task))
            (Template_Branch (Task_Template task))
            (groupsForRepository (Repo_Name (Task_Repository task))
               (Task_TransformChanges task)) = Some err
       \<or> (\<exists>e. groupFileDiffs X (Result_Diff result) db
                  (groupsForRepository (Repo_Name (Task_Repository task))
                     (Task_TransformChanges task)) = Inl e
                \<and> err = wrapGrouping e)"
      by blast
    with Inr flds show ?thesis
      by (auto simp: createChangesetSpecs_fields)
  qed
qed

lemma rangeOrder_example': "rangeOrder (rangeDiffsByBranch exampleExtern)"
  by (simp add: rangeOrder_def exampleExtern_def)

lemma renderFields_example:
  "renderFields exampleExtern exampleTask exampleResult (exampleFlags allow auto) =
     Inr (if auto then ''Sourcegraph'' else '''',
          if auto then ''batch-changes@sourcegraph.com'' else '''',
          ''The title'', ''The body'', ''The message'', ''main'')"
  by (simp add: renderFields_def authorDetails_def exampleExtern_def exampleTask_def
        exampleFlags_def Let_def)

theorem publication_value_resolution_witness:
  "Template_Published (Task_Template (withPublished (Some examplePublished) exampleTask)) =
     Some examplePublished
   \<and> (\<exists>spec. newSpec exampleExtern (withPublished (Some examplePublished) exampleTask)
               (exampleFlags False True) ''Sourcegraph'' ''batch-changes@sourcegraph.com''
               ''The title'' ''The body'' ''The message'' ''grouped-backend'' ''a diff'' = Inr spec
         \<and> Published spec = IfaceBool False)
   \<and> Template_Published (Task_Template exampleTask) = None
   \<and> \<not> AllowOptionalPublished (exampleFlags False True)
   \<and> createChangesetSpecs exampleExtern exampleTask exampleResult (exampleFlags False True) =
       Inl errOptionalPublishedUnsupported"
proof -
  have p: "Template_Published (Task_Template (withPublished (Some examplePublished) exampleTask)) =
     Some examplePublished"
    by (simp add: withPublished_def)
  from publication_value_resolution
         [where task = "withPublished (Some examplePublished) exampleTask"
            and X = exampleExtern and features = "exampleFlags False True"
            and authorName = "''Sourcegraph''" and authorEmail = "''batch-changes@sourcegraph.com''"
            and title = "''The title''" and body = "''The body''" and message = "''The message''"
            and branch = "''grouped-backend''" and diff = "''a diff''"] p
  have 1: "\<exists>spec. newSpec exampleExtern (withPublished (Some examplePublished) exampleTask)
               (exampleFlags False True) ''Sourcegraph'' ''batch-changes@sourcegraph.com''
               ''The title'' ''The body'' ''The message'' ''grouped-backend'' ''a diff'' = Inr spec
         \<and> Published spec = IfaceBool False"
    by (simp add: examplePublished_def exampleFlags_def)
  have n: "Template_Published (Task_Template exampleTask) = None"
    by (simp add: exampleTask_def)
  have f: "\<not> AllowOptionalPublished (exampleFlags False True)"
    by (simp add: exampleFlags_def)
  have v: "(validateGroups (Repo_Name (Task_Repository exampleTask))
              (Template_Branch (Task_Template exampleTask))
              (groupsForRepository (Repo_Name (Task_Repository exampleTask))
                 (Task_TransformChanges exampleTask)) :: string error option) = None"
    by (simp add: exampleTask_def groupsForRepository_def validateGroups_def)
  have g: "\<And>db. groupFileDiffs exampleExtern (Result_Diff exampleResult) db
              (groupsForRepository (Repo_Name (Task_Repository exampleTask))
                 (Task_TransformChanges exampleTask)) =
            Inr [(db, ''backend/a.go backend/a.go; frontend/b.ts frontend/b.ts; backend/old.go /dev/null; '')]"
    by (simp add: exampleTask_def groupsForRepository_def groupFileDiffs_def exampleResult_def
          exampleExtern_def assignFileDiffs_def Let_def index_def exampleFileDiffs_def
          exampleA_def exampleB_def exampleOld_def fileName_def)
  from publication_value_resolution
         [where task = exampleTask and X = exampleExtern and features = "exampleFlags False True"
            and result = exampleResult]
       n f rangeOrder_example rangeOrder_example'
  have 2: "createChangesetSpecs exampleExtern exampleTask exampleResult (exampleFlags False True) =
       Inl errOptionalPublishedUnsupported"
    by (auto simp: v g renderFields_example)
  from p 1 n f 2 show ?thesis by blast
qed

section \<open>createChangesetSpecs: no applicable groups\<close>

lemma renderFields_branch:
  assumes "renderFields X task result features =
             Inr (authorName, authorEmail, title, body, message, defaultBranch)"
  shows "RenderChangesetTemplateField X ''branch'' (Template_Branch (Task_Template task))
           (tmplCtx task result) = Inr defaultBranch"
  using assms by (auto simp: renderFields_def Let_def split: sum.splits prod.splits)

text \<open>
  C5. The applicable groups are the declared groups whose repository filter is empty or
  equals the repository name, in declaration order, and none when no grouping is
  declared. When there are none and the fields render, \<open>createChangesetSpecs\<close> makes the
  single call \<open>newSpec(defaultBranch, result.Diff)\<close>: it returns exactly one spec, whose head
  ref is the rendered default branch (passed through \<open>EnsureRefPrefix\<close>) and whose only
  commit has the combined diff of the execution result as its diff, unchanged; the one
  exception is a task without publication policy under \<open>AllowOptionalPublished = false\<close>,
  for which the call fails with \<open>errOptionalPublishedUnsupported\<close>. A failure to render
  is returned as it is.
\<close>

theorem no_groups_single_spec:
  "groupsForRepository repoName transform =
     (case transform of
        None \<Rightarrow> []
      | Some gs \<Rightarrow> filter (\<lambda>g. Repository g = '''' \<or> Repository g = repoName) gs)
   \<and> (\<forall>err. renderFields X task result features = Inl err \<longrightarrow>
         createChangesetSpecs X task result features = Inl err)
   \<and> (groupsForRepository (Repo_Name (Task_Repository task)) (Task_TransformChanges task) = [] \<longrightarrow>
        renderFields X task result features =
          Inr (authorName, authorEmail, title, body, message, defaultBranch) \<longrightarrow>
        RenderChangesetTemplateField X ''branch'' (Template_Branch (Task_Template task))
          (tmplCtx task result) = Inr defaultBranch
        \<and> (if Template_Published (Task_Template task) = None \<and> \<not> AllowOptionalPublished features
            then createChangesetSpecs X task result features =
                   Inl (errOptionalPublishedUnsupported :: 'e error)
            else (\<exists>spec. createChangesetSpecs (X :: 'e extern) task result features = Inr [spec]
                    \<and> HeadRef spec = EnsureRefPrefix X defaultBranch
                    \<and> map Diff (Commits spec) = [Result_Diff result])))"
proof (intro conjI allI impI)
  show "groupsForRepository repoName transform =
     (case transform of
        None \<Rightarrow> []
      | Some gs \<Rightarrow> filter (\<lambda>g. Repository g = '''' \<or> Repository g = repoName) gs)"
    by (cases transform) (simp_all add: groupsForRepository_filter, simp add: groupsForRepository_def)
next
  fix err
  assume "renderFields X task result features = Inl err"
  then show "createChangesetSpecs X task result features = Inl err"
    by (simp add: createChangesetSpecs_fields)
next
  assume "renderFields X task result features =
          Inr (authorName, authorEmail, title, body, message, defaultBranch)"
  then show "RenderChangesetTemplateField X ''branch'' (Template_Branch (Task_Template task))
          (tmplCtx task result) = Inr defaultBranch"
    by (rule renderFields_branch)
next
  assume nogroups: "groupsForRepository (Repo_Name (Task_Repository task))
                      (Task_TransformChanges task) = []"
    and flds: "renderFields X task result features =
          Inr (authorName, authorEmail, title, body, message, defaultBranch)"
  have "createChangesetSpecs X task result features =
          (case newSpec X task features authorName authorEmail title body message
                  defaultBranch (Result_Diff result) of
             Inl err \<Rightarrow> Inl err
           | Inr spec \<Rightarrow> Inr [spec])"
    by (simp add: createChangesetSpecs_fields flds assemble_def nogroups split: sum.splits)
  then show "if Template_Published (Task_Template task) = None \<and> \<not> AllowOptionalPublished features
            then createChangesetSpecs X task result features =
                   Inl (errOptionalPublishedUnsupported :: 'e error)
            else (\<exists>spec. createChangesetSpecs X task result features = Inr [spec]
                    \<and> HeadRef spec = EnsureRefPrefix X defaultBranch
                    \<and> map Diff (Commits spec) = [Result_Diff result])"
    by (simp add: newSpec_result)
qed

theorem no_groups_single_spec_witness:
  "groupsForRepository (Repo_Name (Task_Repository exampleTask))
     (Task_TransformChanges exampleTask) = []
   \<and> renderFields exampleExtern exampleTask exampleResult (exampleFlags True True) =
       Inr (''Sourcegraph'', ''batch-changes@sourcegraph.com'',
            ''The title'', ''The body'', ''The message'', ''main'')
   \<and> (\<exists>spec. createChangesetSpecs exampleExtern exampleTask exampleResult (exampleFlags True True) =
                Inr [spec]
         \<and> HeadRef spec = ''refs/heads/main''
         \<and> map Diff (Commits spec) = [''a diff''])"
proof -
  have g: "groupsForRepository (Repo_Name (Task_Repository exampleTask))
     (Task_TransformChanges exampleTask) = []"
    by (simp add: exampleTask_def groupsForRepository_def)
  have r: "renderFields exampleExtern exampleTask exampleResult (exampleFlags True True) =
       Inr (''Sourcegraph'', ''batch-changes@sourcegraph.com'',
            ''The title'', ''The body'', ''The message'', ''main'')"
    by (simp add: renderFields_example)
  from no_groups_single_spec
         [where X = exampleExtern and task = exampleTask and result = exampleResult
            and features = "exampleFlags True True" and defaultBranch = "''main''"
            and authorName = "''Sourcegraph''" and authorEmail = "''batch-changes@sourcegraph.com''"
            and title = "''The title''" and body = "''The body''" and message = "''The message''"]
       g r
  have "\<exists>spec. createChangesetSpecs exampleExtern exampleTask exampleResult (exampleFlags True True) =
                Inr [spec]
         \<and> HeadRef spec = ''refs/heads/main''
         \<and> map Diff (Commits spec) = [''a diff'']"
    by (simp add: exampleFlags_def exampleExtern_def exampleResult_def)
  with g r show ?thesis by blast
qed

section \<open>createChangesetSpecs: the author\<close>

lemma renderFields_author:
  assumes "renderFields X task result features =
             Inr (authorName, authorEmail, title, body, message, defaultBranch)"
  shows "authorDetails X task features (tmplCtx task result) = Inr (authorName, authorEmail)"
  using assms by (auto simp: renderFields_def Let_def split: sum.splits prod.splits)

lemma renderFields_author_Inl:
  assumes "authorDetails X task features (tmplCtx task result) = Inl err"
  shows "renderFields X task result features = Inl err"
  using assms by (simp add: renderFields_def Let_def)

lemma createChangesetSpecs_commits:
  assumes ok: "createChangesetSpecs X task result features = Inr specs"
    and mem: "spec \<in> set specs"
  shows "\<exists>authorName authorEmail message diff.
           authorDetails X task features (tmplCtx task result) = Inr (authorName, authorEmail)
         \<and> Commits spec = [\<lparr>Message = message, AuthorName = authorName,
                               AuthorEmail = authorEmail, Diff = diff\<rparr>]"
proof -
  from ok obtain an ae t b m db where
    flds: "renderFields X task result features = Inr (an, ae, t, b, m, db)"
    and asm: "assemble X task result db (newSpec X task features an ae t b m) = Inr specs"
    by (auto simp: createChangesetSpecs_fields split: sum.splits)
  from assemble_mem [OF asm mem] obtain br d where
    "newSpec X task features an ae t b m br d = Inr spec" by blast
  then have "Commits spec = [\<lparr>Message = m, AuthorName = an, AuthorEmail = ae, Diff = d\<rparr>]"
    by (auto simp: newSpec_result split: if_splits)
  with renderFields_author [OF flds] show ?thesis by blast
qed

text \<open>
  C8. For a task without author override, every commit description of every spec that
  \<open>createChangesetSpecs\<close> returns has the author name \<^verbatim>\<open>Sourcegraph\<close> and the author email
  \<^verbatim>\<open>batch-changes@sourcegraph.com\<close> when \<open>IncludeAutoAuthorDetails\<close> is true, and the empty
  string for both when it is false; each spec has exactly one commit description. For a
  task with an override, the name and the email are the override's templates rendered with
  the context that the other fields are rendered with, and a failure to render either of
  them is the result of the whole call.
\<close>

theorem author_defaults_and_override:
  "(Commit_Author (Template_Commit (Task_Template task)) = None \<longrightarrow>
      (\<forall>specs. createChangesetSpecs X task result features = Inr specs \<longrightarrow>
         (\<forall>spec\<in>set specs. \<exists>c. Commits spec = [c]
            \<and> AuthorName c = (if IncludeAutoAuthorDetails features then ''Sourcegraph'' else '''')
            \<and> AuthorEmail c =
                (if IncludeAutoAuthorDetails features then ''batch-changes@sourcegraph.com''
                 else ''''))))
   \<and> (\<forall>author. Commit_Author (Template_Commit (Task_Template task)) = Some author \<longrightarrow>
        (\<forall>err. RenderChangesetTemplateField X ''authorName'' (Author_Name author)
                  (tmplCtx task result) = Inl err \<longrightarrow>
           createChangesetSpecs X task result features = Inl (Lib err))
        \<and> (\<forall>name err. RenderChangesetTemplateField X ''authorName'' (Author_Name author)
                  (tmplCtx task result) = Inr name \<longrightarrow>
              RenderChangesetTemplateField X ''authorEmail'' (Author_Email author)
                  (tmplCtx task result) = Inl err \<longrightarrow>
           createChangesetSpecs X task result features = Inl (Lib err))
        \<and> (\<forall>specs. createChangesetSpecs X task result features = Inr specs \<longrightarrow>
             (\<forall>spec\<in>set specs. \<exists>c. Commits spec = [c]
                \<and> RenderChangesetTemplateField X ''authorName'' (Author_Name author)
                     (tmplCtx task result) = Inr (AuthorName c)
                \<and> RenderChangesetTemplateField X ''authorEmail'' (Author_Email author)
                     (tmplCtx task result) = Inr (AuthorEmail c))))"
proof (intro conjI allI impI ballI)
  fix specs spec
  assume none: "Commit_Author (Template_Commit (Task_Template task)) = None"
    and ok: "createChangesetSpecs X task result features = Inr specs" and mem: "spec \<in> set specs"
  from createChangesetSpecs_commits [OF ok mem] obtain an ae m d where
    a: "authorDetails X task features (tmplCtx task result) = Inr (an, ae)"
    and c: "Commits spec = [\<lparr>Message = m, AuthorName = an, AuthorEmail = ae, Diff = d\<rparr>]"
    by blast
  from a none have "an = (if IncludeAutoAuthorDetails features then ''Sourcegraph'' else '''')"
    "ae = (if IncludeAutoAuthorDetails features then ''batch-changes@sourcegraph.com'' else '''')"
    by (auto simp: authorDetails_def split: if_splits)
  with c show "\<exists>c. Commits spec = [c]
            \<and> AuthorName c = (if IncludeAutoAuthorDetails features then ''Sourcegraph'' else '''')
            \<and> AuthorEmail c =
                (if IncludeAutoAuthorDetails features then ''batch-changes@sourcegraph.com''
                 else '''')"
    by simp
next
  fix author err
  assume "Commit_Author (Template_Commit (Task_Template task)) = Some author"
    "RenderChangesetTemplateField X ''authorName'' (Author_Name author) (tmplCtx task result) = Inl err"
  then have "authorDetails X task features (tmplCtx task result) = Inl (Lib err)"
    by (simp add: authorDetails_def)
  then show "createChangesetSpecs X task result features = Inl (Lib err)"
    by (simp add: createChangesetSpecs_fields renderFields_author_Inl)
next
  fix author name err
  assume "Commit_Author (Template_Commit (Task_Template task)) = Some author"
    "RenderChangesetTemplateField X ''authorName'' (Author_Name author) (tmplCtx task result) = Inr name"
    "RenderChangesetTemplateField X ''authorEmail'' (Author_Email author) (tmplCtx task result) = Inl err"
  then have "authorDetails X task features (tmplCtx task result) = Inl (Lib err)"
    by (simp add: authorDetails_def)
  then show "createChangesetSpecs X task result features = Inl (Lib err)"
    by (simp add: createChangesetSpecs_fields renderFields_author_Inl)
next
  fix author specs spec
  assume some: "Commit_Author (Template_Commit (Task_Template task)) = Some author"
    and ok: "createChangesetSpecs X task result features = Inr specs" and mem: "spec \<in> set specs"
  from createChangesetSpecs_commits [OF ok mem] obtain an ae m d where
    a: "authorDetails X task features (tmplCtx task result) = Inr (an, ae)"
    and c: "Commits spec = [\<lparr>Message = m, AuthorName = an, AuthorEmail = ae, Diff = d\<rparr>]"
    by blast
  from a some have
    "RenderChangesetTemplateField X ''authorName'' (Author_Name author) (tmplCtx task result) = Inr an"
    "RenderChangesetTemplateField X ''authorEmail'' (Author_Email author) (tmplCtx task result) = Inr ae"
    by (auto simp: authorDetails_def split: sum.splits)
  with c show "\<exists>c. Commits spec = [c]
                \<and> RenderChangesetTemplateField X ''authorName'' (Author_Name author)
                     (tmplCtx task result) = Inr (AuthorName c)
                \<and> RenderChangesetTemplateField X ''authorEmail'' (Author_Email author)
                     (tmplCtx task result) = Inr (AuthorEmail c)"
    by simp
qed

lemma createChangesetSpecs_example:
  "createChangesetSpecs exampleExtern exampleTask exampleResult (exampleFlags True auto) =
     Inr [\<lparr>BaseRepository = ''UmVwbzox'', BaseRef = ''refs/heads/trunk'', BaseRev = ''0123abc'',
           HeadRepository = ''UmVwbzox'', HeadRef = ''refs/heads/main'',
           Title = ''The title'', Body = ''The body'',
           Commits = [\<lparr>Message = ''The message'',
                       AuthorName = (if auto then ''Sourcegraph'' else ''''),
                       AuthorEmail = (if auto then ''batch-changes@sourcegraph.com'' else ''''),
                       Diff = ''a diff''\<rparr>],
           Published = IfaceNil\<rparr>]"
  by (simp only: createChangesetSpecs_fields renderFields_example)
     (simp add: assemble_def newSpec_result publicationValue_def exampleTask_def
        exampleFlags_def exampleExtern_def exampleResult_def groupsForRepository_def)

theorem author_defaults_and_override_witness:
  "Commit_Author (Template_Commit (Task_Template exampleTask)) = None
   \<and> (\<exists>spec c. createChangesetSpecs exampleExtern exampleTask exampleResult (exampleFlags True True) =
                  Inr [spec]
         \<and> Commits spec = [c]
         \<and> AuthorName c = ''Sourcegraph'' \<and> AuthorEmail c = ''batch-changes@sourcegraph.com'')
   \<and> Commit_Author (Template_Commit (Task_Template
         (withAuthor (Some \<lparr>Author_Name = ''{{'', Author_Email = ''bot@example.com''\<rparr>) exampleTask))) =
       Some \<lparr>Author_Name = ''{{'', Author_Email = ''bot@example.com''\<rparr>
   \<and> createChangesetSpecs exampleExtern
        (withAuthor (Some \<lparr>Author_Name = ''{{'', Author_Email = ''bot@example.com''\<rparr>) exampleTask)
        exampleResult (exampleFlags True True) = Inl (Lib ''bad template'')"
proof -
  let ?a = "\<lparr>Author_Name = ''{{'', Author_Email = ''bot@example.com''\<rparr>"
  have none: "Commit_Author (Template_Commit (Task_Template exampleTask)) = None"
    by (simp add: exampleTask_def)
  note ok = createChangesetSpecs_example [of True]
  from author_defaults_and_override
         [where task = exampleTask and X = exampleExtern and result = exampleResult
            and features = "exampleFlags True True"]
       none ok
  have 1: "\<exists>spec c. createChangesetSpecs exampleExtern exampleTask exampleResult
                      (exampleFlags True True) = Inr [spec]
         \<and> Commits spec = [c]
         \<and> AuthorName c = ''Sourcegraph'' \<and> AuthorEmail c = ''batch-changes@sourcegraph.com''"
    by (simp add: exampleFlags_def)
  have some: "Commit_Author (Template_Commit (Task_Template (withAuthor (Some ?a) exampleTask))) =
       Some ?a"
    by (simp add: withAuthor_def)
  have bad: "RenderChangesetTemplateField exampleExtern ''authorName'' (Author_Name ?a)
               (tmplCtx (withAuthor (Some ?a) exampleTask) exampleResult) = Inl ''bad template''"
    by (simp add: exampleExtern_def)
  from author_defaults_and_override
         [where task = "withAuthor (Some ?a) exampleTask" and X = exampleExtern
            and result = exampleResult and features = "exampleFlags True True"]
       some bad
  have 2: "createChangesetSpecs exampleExtern (withAuthor (Some ?a) exampleTask)
        exampleResult (exampleFlags True True) = Inl (Lib ''bad template'')"
    by blast
  from none 1 some 2 show ?thesis by blast
qed

section \<open>createChangesetSpecs: failures of groupFileDiffs\<close>

lemma groupFileDiffs_print_fails:
  assumes ro: "rangeOrder (rangeByBranch X)"
    and parse: "ParseMultiFileDiff (X :: 'e extern) d = Inr fds"
    and b: "b = db \<or> (\<exists>f\<in>set fds. branchOfFile db groups f = Some b)"
    and bad: "PrintMultiFileDiff X (filter (\<lambda>f. branchOfFile db groups f = Some b) fds) = Inl e"
  shows "\<exists>err. groupFileDiffs X d db groups = Inl err"
proof (cases "groupFileDiffs X d db groups")
  case (Inl err)
  then show ?thesis by simp
next
  case (Inr final)
  from groupFileDiffs_prints [OF ro parse Inr b] bad show ?thesis by simp
qed

text \<open>
  C7, as the spec states it, fails for the parsing case: \<open>groupFileDiffs\<close> returns the
  parser's error as it is (lines 181--184), neither wrapped nor named. In the example the
  parser rejects the text \<^verbatim>\<open>not a diff\<close> with the error \<^verbatim>\<open>bad diff\<close>, and that error is
  the result of \<open>groupFileDiffs\<close>; what \<open>createChangesetSpecs\<close> adds is the message
  \<^verbatim>\<open>grouping diffs failed\<close>, which it adds to a printing failure as well.
\<close>

theorem groupFileDiffs_parse_error_bare_counterexample:
  "ParseMultiFileDiff exampleExtern ''not a diff'' = Inl ''bad diff''
   \<and> groupFileDiffs exampleExtern ''not a diff'' ''main'' exampleGroups = Inl (Lib ''bad diff'')
   \<and> createChangesetSpecs exampleExtern (withGroups (Some exampleGroups) exampleTask)
        (exampleResult\<lparr>Result_Diff := ''not a diff''\<rparr>) (exampleFlags True True) =
       Inl (Wrap (Lib ''bad diff'') ''grouping diffs failed'')"
  by (simp add: createChangesetSpecs_fields renderFields_def authorDetails_def assemble_def
        groupFileDiffs_def groupsForRepository_def validateGroups_def exampleExtern_def
        exampleTask_def exampleResult_def exampleFlags_def exampleGroups_def withGroups_def
        Let_def)

text \<open>
  C7, amended. \<open>groupFileDiffs\<close> fails in two ways only. When the file diffs of a branch do
  not print, it returns the printer's error wrapped with the message
  \<^verbatim>\<open>printing multi file diff failed\<close>; a list of some branch of the result that does not
  print makes the call fail. When the combined diff does not parse, it returns the
  parser's error as it is, with no wrapper and no name of its own. \<open>createChangesetSpecs\<close>
  wraps whichever of the two it receives with the one message \<^verbatim>\<open>grouping diffs failed\<close>.
  So the printing case is the one that carries the printing wrapper, and the parsing case
  is told only by the parser's own error. (For \<open>createChangesetSpecs\<close> to reach
  \<open>groupFileDiffs\<close>, the fields render, there are applicable groups and they pass
  validation.)
\<close>

theorem groupFileDiffs_failures_reported:
  assumes flds: "renderFields (X :: 'e extern) task result features =
                   Inr (authorName, authorEmail, title, body, message, defaultBranch)"
    and groups: "groups = groupsForRepository (Repo_Name (Task_Repository task))
                            (Task_TransformChanges task)"
    and nonempty: "groups \<noteq> []"
    and valid: "(validateGroups (Repo_Name (Task_Repository task))
                   (Template_Branch (Task_Template task)) groups :: 'e error option) = None"
  shows "(\<forall>e. ParseMultiFileDiff X (Result_Diff result) = Inl e \<longrightarrow>
            groupFileDiffs X (Result_Diff result) defaultBranch groups = Inl (Lib e)
            \<and> createChangesetSpecs X task result features =
                Inl (Wrap (Lib e) ''grouping diffs failed''))
       \<and> (\<forall>fileDiffs err.
            ParseMultiFileDiff X (Result_Diff result) = Inr fileDiffs \<longrightarrow>
            groupFileDiffs X (Result_Diff result) defaultBranch groups = Inl err \<longrightarrow>
            (\<exists>ds e. PrintMultiFileDiff X ds = Inl e
               \<and> err = Wrap (Lib e) ''printing multi file diff failed''
               \<and> createChangesetSpecs X task result features =
                   Inl (Wrap (Wrap (Lib e) ''printing multi file diff failed'')
                          ''grouping diffs failed'')))
       \<and> (\<forall>fileDiffs b e.
            rangeOrder (rangeByBranch X) \<longrightarrow>
            ParseMultiFileDiff X (Result_Diff result) = Inr fileDiffs \<longrightarrow>
            b = defaultBranch \<or> (\<exists>f\<in>set fileDiffs. branchOfFile defaultBranch groups f = Some b) \<longrightarrow>
            PrintMultiFileDiff X
              (filter (\<lambda>f. branchOfFile defaultBranch groups f = Some b) fileDiffs) = Inl e \<longrightarrow>
            (\<exists>err. groupFileDiffs X (Result_Diff result) defaultBranch groups = Inl err))"
proof (intro conjI allI impI)
  have call: "createChangesetSpecs X task result features =
                (case groupFileDiffs X (Result_Diff result) defaultBranch groups of
                   Inl err \<Rightarrow> Inl (wrapGrouping err)
                 | Inr diffsByBranch \<Rightarrow>
                     specsLoop (newSpec X task features authorName authorEmail title body message)
                       (rangeDiffsByBranch X diffsByBranch) [])"
    using nonempty valid
    by (simp add: createChangesetSpecs_fields flds assemble_def Let_def flip: groups)
  {
    fix e
    assume parse: "ParseMultiFileDiff X (Result_Diff result) = Inl e"
    then show g: "groupFileDiffs X (Result_Diff result) defaultBranch groups = Inl (Lib e)"
      by (simp add: groupFileDiffs_def)
    show "createChangesetSpecs X task result features =
            Inl (Wrap (Lib e) ''grouping diffs failed'')"
      by (simp add: call g)
  }
  {
    fix fileDiffs err
    assume parse: "ParseMultiFileDiff X (Result_Diff result) = Inr fileDiffs"
      and fail: "groupFileDiffs X (Result_Diff result) defaultBranch groups = Inl err"
    from groupFileDiffs_Inl [OF fail] parse obtain ds e where
      e: "PrintMultiFileDiff X ds = Inl e" "err = Wrap (Lib e) ''printing multi file diff failed''"
      by auto
    then have "createChangesetSpecs X task result features =
                 Inl (Wrap (Wrap (Lib e) ''printing multi file diff failed'')
                        ''grouping diffs failed'')"
      by (simp add: call fail)
    with e show "\<exists>ds e. PrintMultiFileDiff X ds = Inl e
               \<and> err = Wrap (Lib e) ''printing multi file diff failed''
               \<and> createChangesetSpecs X task result features =
                   Inl (Wrap (Wrap (Lib e) ''printing multi file diff failed'')
                          ''grouping diffs failed'')"
      by blast
  }
  {
    fix fileDiffs b e
    assume "rangeOrder (rangeByBranch X)"
      "ParseMultiFileDiff X (Result_Diff result) = Inr fileDiffs"
      "b = defaultBranch \<or> (\<exists>f\<in>set fileDiffs. branchOfFile defaultBranch groups f = Some b)"
      "PrintMultiFileDiff X
         (filter (\<lambda>f. branchOfFile defaultBranch groups f = Some b) fileDiffs) = Inl e"
    then show "\<exists>err. groupFileDiffs X (Result_Diff result) defaultBranch groups = Inl err"
      by (rule groupFileDiffs_print_fails)
  }
qed

theorem groupFileDiffs_failures_reported_witness:
  "renderFields exampleExtern (withGroups (Some exampleGroups) exampleTask)
       (exampleResult\<lparr>Result_Diff := ''not a diff''\<rparr>) (exampleFlags True True) =
     Inr (''Sourcegraph'', ''batch-changes@sourcegraph.com'',
          ''The title'', ''The body'', ''The message'', ''main'')
   \<and> exampleGroups \<noteq> []
   \<and> (validateGroups ''github.com/example/repo'' ''main'' exampleGroups :: string error option) = None
   \<and> ParseMultiFileDiff exampleExtern ''not a diff'' = Inl ''bad diff''
   \<and> createChangesetSpecs exampleExtern (withGroups (Some exampleGroups) exampleTask)
        (exampleResult\<lparr>Result_Diff := ''not a diff''\<rparr>) (exampleFlags True True) =
       Inl (Wrap (Lib ''bad diff'') ''grouping diffs failed'')
   \<and> createChangesetSpecs (exampleExtern\<lparr>PrintMultiFileDiff := \<lambda>ds. Inl ''cannot print''\<rparr>)
        (withGroups (Some exampleGroups) exampleTask) exampleResult (exampleFlags True True) =
       Inl (Wrap (Wrap (Lib ''cannot print'') ''printing multi file diff failed'')
              ''grouping diffs failed'')"
proof -
  let ?X = "exampleExtern\<lparr>PrintMultiFileDiff := \<lambda>ds. Inl ''cannot print''\<rparr>"
  have flds': "renderFields ?X (withGroups (Some exampleGroups) exampleTask) exampleResult
                 (exampleFlags True True) =
     Inr (''Sourcegraph'', ''batch-changes@sourcegraph.com'',
          ''The title'', ''The body'', ''The message'', ''main'')"
    by (simp add: renderFields_def authorDetails_def exampleExtern_def exampleTask_def
          exampleFlags_def withGroups_def Let_def)
  have parse': "ParseMultiFileDiff ?X (Result_Diff exampleResult) = Inr exampleFileDiffs"
    by (simp add: exampleExtern_def exampleResult_def)
  have fail': "groupFileDiffs ?X (Result_Diff exampleResult) ''main'' exampleGroups =
                 Inl (Wrap (Lib ''cannot print'') ''printing multi file diff failed'')"
    unfolding groupFileDiffs_unfold [OF parse' assignFileDiffs_example]
    by (simp add: exampleExtern_def)
  let ?T = "withGroups (Some exampleGroups) exampleTask"
  let ?R = "exampleResult\<lparr>Result_Diff := ''not a diff''\<rparr>"
  have flds: "renderFields exampleExtern ?T ?R (exampleFlags True True) =
     Inr (''Sourcegraph'', ''batch-changes@sourcegraph.com'',
          ''The title'', ''The body'', ''The message'', ''main'')"
    by (simp add: renderFields_def authorDetails_def exampleExtern_def exampleTask_def
          exampleFlags_def withGroups_def Let_def)
  have groups: "exampleGroups =
      groupsForRepository (Repo_Name (Task_Repository ?T)) (Task_TransformChanges ?T)"
    by (simp add: withGroups_def groupsForRepository_def exampleGroups_def)
  have nonempty: "exampleGroups \<noteq> []"
    by (simp add: exampleGroups_def)
  have valid: "(validateGroups (Repo_Name (Task_Repository ?T)) (Template_Branch (Task_Template ?T))
                  exampleGroups :: string error option) = None"
    by (simp add: withGroups_def exampleTask_def validateGroups_def exampleGroups_def)
  have valid': "(validateGroups ''github.com/example/repo'' ''main'' exampleGroups
                  :: string error option) = None"
    by (simp add: validateGroups_def exampleGroups_def)
  have parse: "ParseMultiFileDiff exampleExtern ''not a diff'' = Inl ''bad diff''"
    by (simp add: exampleExtern_def)
  have diff: "Result_Diff ?R = ''not a diff''"
    by simp
  from groupFileDiffs_failures_reported [OF flds groups nonempty valid] parse
  have "createChangesetSpecs exampleExtern ?T ?R (exampleFlags True True) =
          Inl (Wrap (Lib ''bad diff'') ''grouping diffs failed'')"
    unfolding diff by blast
  moreover
  from groupFileDiffs_failures_reported [OF flds' groups nonempty valid] parse' fail'
  have "createChangesetSpecs ?X ?T exampleResult (exampleFlags True True) =
          Inl (Wrap (Wrap (Lib ''cannot print'') ''printing multi file diff failed'')
                 ''grouping diffs failed'')"
    by blast
  ultimately show ?thesis using flds nonempty valid' parse by blast
qed

end
